theory Spec2Isabelle
  imports Main "HOL-Library.Word"
begin

section \<open>Data model\<close>

text \<open>
  The handlers of \<^verbatim>\<open>app/server/handlers/plans_crud.go\<close> work on rows of the
  \<^verbatim>\<open>plans\<close> table, on user rows, and on the authentication context of the
  caller. Identifiers are Go strings. Only the columns that the handlers read or that
  their SQL statements mention are kept.
\<close>

record Plan =
  plan_Id :: string
  plan_OrgId :: string
  plan_OwnerId :: string
  plan_ProjectId :: string
  plan_Name :: string

record User =
  user_Id :: string
  IsTrial :: bool
  NumNonDraftPlans :: int

datatype Permission = PermissionCreatePlan | PermissionOther string

record ServerAuth =
  auth_User_Id :: string
  auth_OrgId :: string
  auth_Permissions :: "Permission list"

text \<open>Modelled from the spec: \<^verbatim>\<open>HasPermission(AuthContext, Permission) -> bool\<close>; the
  method of the authentication context is not part of the source file, so it is read as
  membership in the permission set of the context.\<close>

definition HasPermission :: "ServerAuth \<Rightarrow> Permission \<Rightarrow> bool" where
  "HasPermission a p = (p \<in> set (auth_Permissions a))"

definition TrialMaxPlans :: int where
  "TrialMaxPlans = 10"

definition StatusBadRequest :: nat where
  "StatusBadRequest = 400"

definition StatusForbidden :: nat where
  "StatusForbidden = 403"

definition StatusNotFound :: nat where
  "StatusNotFound = 404"

definition StatusInternalServerError :: nat where
  "StatusInternalServerError = 500"

subsection \<open>Responses\<close>

datatype ApiErrorType = ApiErrorTypeTrialPlansExceeded | ApiErrorTypeOther

record TrialPlansExceededError =
  MaxPlans :: int

record ApiError =
  err_Type :: ApiErrorType
  err_Status :: nat
  err_Msg :: string
  err_TrialPlansExceededError :: "TrialPlansExceededError option"

record CreatePlanResponse =
  resp_Id :: string
  resp_Name :: string

text \<open>
  What a handler leaves in the response writer. \<open>HelperResponse\<close> stands for the case
  where \<^verbatim>\<open>authenticate\<close>, \<^verbatim>\<open>authorizeProject\<close>, \<^verbatim>\<open>authorizePlan\<close> or
  \<^verbatim>\<open>authorizePlanDelete\<close> reported the failure themselves and the handler just
  returned. \<open>HttpError status\<close> is \<^verbatim>\<open>http.Error(w, msg, status)\<close> (the message text,
  which embeds \<^verbatim>\<open>err.Error()\<close>, is not modelled). \<open>NoBody\<close> is a return without
  any write, which the HTTP library answers with status 200 and an empty body. Log
  output is not modelled.
\<close>

datatype Response =
    HelperResponse
  | HttpError nat
  | WriteApiError ApiError
  | WriteCreatePlanResponse CreatePlanResponse
  | WritePlan Plan
  | WritePlans "Plan list"
  | NoBody

subsection \<open>The store\<close>

text \<open>
  The store operations a handler can invoke: the functions of package \<^verbatim>\<open>db\<close> and
  the two SQL statements that the handlers issue on \<^verbatim>\<open>db.Conn\<close> directly. Every
  invocation is appended to the log \<open>calls\<close> of the world, so that a statement such
  as "the handler never invokes \<^verbatim>\<open>DeletePlanDir\<close>" is a statement about the log.
\<close>

datatype StoreCall =
    Call_GetUser string
  | Call_CountPlans string string string
  | Call_DeleteDraftPlans string string string
  | Call_CreatePlan string string string string
  | Call_DeletePlanRow string
  | Call_DeletePlanDir string string
  | Call_DeleteOwnerPlans string string string
  | Call_ListOwnedPlans string string bool string

text \<open>
  The world a handler runs in: the \<^verbatim>\<open>plans\<close> table, the user rows, the plan
  directories (keyed by organisation id and plan id), the supply of fresh plan ids, the
  schedule of failures of the coming fallible operations (\<open>True\<close>: the operation
  returns a non-nil \<^verbatim>\<open>err\<close>; an exhausted schedule means no further failure), and
  the log of store invocations.
\<close>

record World =
  plans :: "Plan list"
  users :: "User list"
  plan_dirs :: "(string \<times> string) list"
  next_id :: nat
  faults :: "bool list"
  calls :: "StoreCall list"

definition fallible :: "World \<Rightarrow> bool \<times> World" where
  "fallible w = (case faults w of [] \<Rightarrow> (False, w) | f # fs \<Rightarrow> (f, w\<lparr>faults := fs\<rparr>))"

definition store_call :: "StoreCall \<Rightarrow> World \<Rightarrow> bool \<times> World" where
  "store_call c w = fallible (w\<lparr>calls := calls w @ [c]\<rparr>)"

text \<open>No operation of the schedule fails.\<close>

definition healthy :: "World \<Rightarrow> bool" where
  "healthy w = (True \<notin> set (faults w))"

subsection \<open>Decimal rendering of the loop counter\<close>

text \<open>
  \<^verbatim>\<open>fmt.Sprint(i)\<close> of a Go \<^verbatim>\<open>int\<close>: the decimal digits of the value, with a
  leading minus sign for a negative number. The argument is the signed value of the
  64-bit counter.
\<close>

definition digit_char :: "nat \<Rightarrow> char" where
  "digit_char d = ''0123456789'' ! d"

fun decimal :: "nat \<Rightarrow> string" where
  "decimal n = (if n < 10 then [digit_char n] else decimal (n div 10) @ [digit_char (n mod 10)])"

declare decimal.simps [simp del]

definition Sprint :: "int \<Rightarrow> string" where
  "Sprint i = (if i < 0 then CHR ''-'' # decimal (nat (- i)) else decimal (nat i))"

subsection \<open>The existence check of the naming loop\<close>

text \<open>
  \<^verbatim>\<open>SELECT COUNT(*) FROM plans WHERE project_id = $1 AND owner_id = $2 AND name = $3\<close>,
  issued on \<^verbatim>\<open>db.Conn\<close> by the handler itself. \<open>None\<close> is a non-nil \<^verbatim>\<open>err\<close>.
\<close>

definition count_plans :: "string \<Rightarrow> string \<Rightarrow> string \<Rightarrow> World \<Rightarrow> int option \<times> World" where
  "count_plans projectId userId name w =
     (let (failed, w') = store_call (Call_CountPlans projectId userId name) w in
      if failed then (None, w')
      else (Some (int (length (filter (\<lambda>p. plan_ProjectId p = projectId \<and> plan_OwnerId p = userId
                                           \<and> plan_Name p = name) (plans w')))), w'))"

text \<open>
  The names borne by the rows of a (project id, owner id) scope: the names for which the
  existence check reports a count other than zero.
\<close>

definition scope_names :: "string \<Rightarrow> string \<Rightarrow> World \<Rightarrow> string set" where
  "scope_names projectId userId w =
     plan_Name ` {p \<in> set (plans w). plan_ProjectId p = projectId \<and> plan_OwnerId p = userId}"

subsection \<open>The naming loop\<close>

text \<open>
  Lines 97 to 115 of the handler: \<^verbatim>\<open>i := 2; originalName := name; for { ... }\<close>.
  Each round queries the number of rows with the current name; an error of the query
  ends the handler with status 500, a count of zero leaves the loop with the current
  name, and otherwise the next candidate is \<^verbatim>\<open>originalName + "." + fmt.Sprint(i)\<close>
  and \<^verbatim>\<open>i++\<close>. The counter is a Go \<^verbatim>\<open>int\<close>, a 64-bit word read as a signed
  number: \<^verbatim>\<open>i++\<close> at \<open>2^63 - 1\<close> wraps to \<open>- 2^63\<close>. The loop has no bound and
  need not end: the result is \<open>None\<close> when it runs forever.
\<close>

partial_function (option) name_loop ::
  "string \<Rightarrow> string \<Rightarrow> string \<Rightarrow> string \<Rightarrow> 64 word \<Rightarrow> World \<Rightarrow> ((Response + string) \<times> World) option"
where
  "name_loop projectId userId originalName name i w =
     (case count_plans projectId userId name w of
        (None, w') \<Rightarrow> Some (Inl (HttpError StatusInternalServerError), w')
      | (Some count, w') \<Rightarrow>
          if count = 0 then Some (Inr name, w')
          else name_loop projectId userId originalName (originalName @ ''.'' @ Sprint (sint i))
                 (i + 1) w')"

section \<open>Collaborators that are not part of the source file\<close>

text \<open>
  The request as the handler sees it: the outcome of \<^verbatim>\<open>authenticate(w, r, true)\<close>
  (\<open>None\<close> for \<^verbatim>\<open>nil\<close>), the route variables, and the outcome of reading and
  parsing the body (\<^verbatim>\<open>io.ReadAll\<close> failed, \<^verbatim>\<open>json.Unmarshal\<close> failed, or the
  field \<^verbatim>\<open>requestBody.Name\<close>).
\<close>

datatype BodyResult = ReadError | ParseError | Parsed string

record Request =
  authenticate :: "ServerAuth option"
  vars_projectId :: string
  vars_planId :: string
  body :: BodyResult

text \<open>
  The environment: the variable \<^verbatim>\<open>IS_CLOUD\<close>, the authorization helpers of the
  handlers package (parameters: they are defined in other files; \<open>None\<close> and \<open>False\<close>
  are their \<^verbatim>\<open>nil\<close> and \<^verbatim>\<open>false\<close>), the rows that \<^verbatim>\<open>db.ListOwnedPlans\<close>
  selects for its four arguments from a table (a parameter too: neither the source file
  nor the spec says which rows these are), and whether \<^verbatim>\<open>json.Marshal\<close> fails.
\<close>

record Env =
  IS_CLOUD :: string
  authorizeProject :: "string \<Rightarrow> ServerAuth \<Rightarrow> bool"
  authorizePlan :: "string \<Rightarrow> ServerAuth \<Rightarrow> Plan option"
  authorizePlanDelete :: "string \<Rightarrow> ServerAuth \<Rightarrow> Plan option"
  ListOwnedPlans_rows :: "string \<Rightarrow> string \<Rightarrow> bool \<Rightarrow> string \<Rightarrow> Plan list \<Rightarrow> Plan list"
  marshal_fails :: bool

text \<open>
  The functions of package \<^verbatim>\<open>db\<close>. Each consults the failure schedule once; a
  failing operation leaves the tables and directories as they were.
\<close>

text \<open>Modelled from the spec: \<^verbatim>\<open>GetUser(userId) -> User | Fail\<close>, "fetch user trial
  status and current non-draft plan count"; the function is defined in package db.
  A lookup of the user row by id; a missing row is a failure.\<close>

definition GetUser :: "string \<Rightarrow> World \<Rightarrow> User option \<times> World" where
  "GetUser userId w =
     (let (failed, w') = store_call (Call_GetUser userId) w in
      if failed then (None, w')
      else (find (\<lambda>u. user_Id u = userId) (users w'), w'))"

text \<open>Modelled from the spec: \<^verbatim>\<open>DeleteDraftPlans(orgId, projectId, ownerId) -> Fail?\<close>,
  "delete all existing draft plans owned by (org, project, owner)"; the function is
  defined in package db. The result is \<open>True\<close> for a non-nil \<^verbatim>\<open>err\<close>.\<close>

definition DeleteDraftPlans :: "string \<Rightarrow> string \<Rightarrow> string \<Rightarrow> World \<Rightarrow> bool \<times> World" where
  "DeleteDraftPlans orgId projectId userId w =
     (let (failed, w') = store_call (Call_DeleteDraftPlans orgId projectId userId) w in
      if failed then (True, w')
      else (False, w'\<lparr>plans := filter (\<lambda>p. \<not> (plan_OrgId p = orgId \<and> plan_ProjectId p = projectId
                          \<and> plan_OwnerId p = userId \<and> plan_Name p = ''draft'')) (plans w')\<rparr>))"

text \<open>Modelled from the spec: \<^verbatim>\<open>CreatePlan(orgId, projectId, ownerId, name) -> Plan | Fail\<close>,
  "persist the new Plan via Plan Store"; the function is defined in package db. One row
  with the given organisation, project, owner and name and an id from the id supply is
  appended to the table and returned.\<close>

definition CreatePlan :: "string \<Rightarrow> string \<Rightarrow> string \<Rightarrow> string \<Rightarrow> World \<Rightarrow> Plan option \<times> World" where
  "CreatePlan orgId projectId userId name w =
     (let (failed, w') = store_call (Call_CreatePlan orgId projectId userId name) w in
      if failed then (None, w')
      else (let plan = \<lparr>plan_Id = decimal (next_id w'), plan_OrgId = orgId, plan_OwnerId = userId,
                         plan_ProjectId = projectId, plan_Name = name\<rparr>
            in (Some plan, w'\<lparr>plans := plans w' @ [plan], next_id := Suc (next_id w')\<rparr>)))"

text \<open>Modelled from the spec: \<^verbatim>\<open>DeletePlanDirectory(orgId, planId) -> Fail?\<close>, "delete
  associated external plan directory"; the function is defined in package db.\<close>

definition DeletePlanDir :: "string \<Rightarrow> string \<Rightarrow> World \<Rightarrow> bool \<times> World" where
  "DeletePlanDir orgId planId w =
     (let (failed, w') = store_call (Call_DeletePlanDir orgId planId) w in
      if failed then (True, w')
      else (False, w'\<lparr>plan_dirs := filter (\<lambda>d. d \<noteq> (orgId, planId)) (plan_dirs w')\<rparr>))"

text \<open>Modelled from the spec: \<^verbatim>\<open>DeleteOwnerPlans(orgId, projectId, ownerId) -> Fail?\<close>,
  "bulk delete (all plans owned by caller in a project)", and "a Plan is destroyed by
  explicit deletion (single, owner-filtered, or project-filtered bulk deletion) which
  also triggers deletion of any associated plan directory"; the function is defined in
  package db. The rows of that organisation, project and owner are deleted, and with
  them their plan directories.\<close>

definition DeleteOwnerPlans :: "string \<Rightarrow> string \<Rightarrow> string \<Rightarrow> World \<Rightarrow> bool \<times> World" where
  "DeleteOwnerPlans orgId projectId userId w =
     (let (failed, w') = store_call (Call_DeleteOwnerPlans orgId projectId userId) w in
      if failed then (True, w')
      else (let owned = filter (\<lambda>p. plan_OrgId p = orgId \<and> plan_ProjectId p = projectId
                                     \<and> plan_OwnerId p = userId) (plans w')
            in (False, w'\<lparr>plans := filter (\<lambda>p. \<not> (plan_OrgId p = orgId \<and> plan_ProjectId p = projectId
                                                \<and> plan_OwnerId p = userId)) (plans w'),
                         plan_dirs := filter (\<lambda>d. d \<notin> set (map (\<lambda>p. (orgId, plan_Id p)) owned))
                                        (plan_dirs w')\<rparr>)))"

text \<open>Modelled from the spec: \<^verbatim>\<open>ListOwnedPlans(projectId, ownerId, includeArchived, filter)
  -> [Plan] | Fail\<close>; the function is defined in package db. The spec gives its signature
  only, so the selected rows are those that the environment's \<open>ListOwnedPlans_rows\<close>
  yields for the four arguments.\<close>

definition ListOwnedPlans :: "Env \<Rightarrow> string \<Rightarrow> string \<Rightarrow> bool \<Rightarrow> string \<Rightarrow> World \<Rightarrow> Plan list option \<times> World" where
  "ListOwnedPlans e projectId userId includeArchived status w =
     (let (failed, w') = store_call (Call_ListOwnedPlans projectId userId includeArchived status) w in
      if failed then (None, w')
      else (Some (ListOwnedPlans_rows e projectId userId includeArchived status (plans w')), w'))"

text \<open>
  \<^verbatim>\<open>db.Conn.Exec("DELETE FROM plans WHERE id = $1", planId)\<close>, issued by the deletion
  handler itself: on success the number of rows affected, and the table without the
  rows of that id.
\<close>

definition exec_delete_plan :: "string \<Rightarrow> World \<Rightarrow> int option \<times> World" where
  "exec_delete_plan planId w =
     (let (failed, w') = store_call (Call_DeletePlanRow planId) w in
      if failed then (None, w')
      else (Some (int (length (filter (\<lambda>p. plan_Id p = planId) (plans w')))),
            w'\<lparr>plans := filter (\<lambda>p. plan_Id p \<noteq> planId) (plans w')\<rparr>))"

section \<open>The handlers\<close>

subsection \<open>CreatePlanHandler\<close>

text \<open>
  Lines 42 to 64: the trial quota gate. \<open>Some response\<close> means that the handler has
  answered and returns; \<open>None\<close> means that it goes on.
\<close>

definition trial_quota_gate :: "Env \<Rightarrow> ServerAuth \<Rightarrow> World \<Rightarrow> Response option \<times> World" where
  "trial_quota_gate e auth w =
     (if IS_CLOUD e \<noteq> [] then
        (case GetUser (auth_User_Id auth) w of
           (None, w') \<Rightarrow> (Some (HttpError StatusInternalServerError), w')
         | (Some user, w') \<Rightarrow>
             if IsTrial user \<and> NumNonDraftPlans user \<ge> TrialMaxPlans then
               (Some (WriteApiError \<lparr>err_Type = ApiErrorTypeTrialPlansExceeded,
                                      err_Status = StatusForbidden,
                                      err_Msg = ''User has reached max number of free trial plans'',
                                      err_TrialPlansExceededError = Some \<lparr>MaxPlans = TrialMaxPlans\<rparr>\<rparr>), w')
             else (None, w'))
      else (None, w))"

text \<open>
  Lines 82 to 116: the name of the new plan. An empty requested name becomes
  \<^verbatim>\<open>"draft"\<close>; for the name \<^verbatim>\<open>"draft"\<close> the existing drafts are deleted, for any
  other name the naming loop runs with \<^verbatim>\<open>i := 2\<close> and \<^verbatim>\<open>originalName := name\<close>.
\<close>

definition resolve_name :: "ServerAuth \<Rightarrow> string \<Rightarrow> string \<Rightarrow> World \<Rightarrow> ((Response + string) \<times> World) option" where
  "resolve_name auth projectId requestBody_Name w =
     (let name = (if requestBody_Name = [] then ''draft'' else requestBody_Name) in
      if name = ''draft'' then
        (let (failed, w') = DeleteDraftPlans (auth_OrgId auth) projectId (auth_User_Id auth) w in
         if failed then Some (Inl (HttpError StatusInternalServerError), w') else Some (Inr name, w'))
      else name_loop projectId (auth_User_Id auth) name name 2 w)"

text \<open>Lines 118 to 141: the insertion and the response.\<close>

definition create_and_respond :: "Env \<Rightarrow> ServerAuth \<Rightarrow> string \<Rightarrow> string \<Rightarrow> World \<Rightarrow> Response \<times> World" where
  "create_and_respond e auth projectId name w =
     (case CreatePlan (auth_OrgId auth) projectId (auth_User_Id auth) name w of
        (None, w') \<Rightarrow> (HttpError StatusInternalServerError, w')
      | (Some plan, w') \<Rightarrow>
          if marshal_fails e then (HttpError StatusInternalServerError, w')
          else (WriteCreatePlanResponse \<lparr>resp_Id = plan_Id plan, resp_Name = plan_Name plan\<rparr>, w'))"

text \<open>The handler; \<open>None\<close> when the naming loop runs forever.\<close>

definition CreatePlanHandler :: "Env \<Rightarrow> Request \<Rightarrow> World \<Rightarrow> (Response \<times> World) option" where
  "CreatePlanHandler e r w =
     (case authenticate r of
        None \<Rightarrow> Some (HelperResponse, w)
      | Some auth \<Rightarrow>
          if \<not> HasPermission auth PermissionCreatePlan then Some (HttpError StatusForbidden, w)
          else if \<not> authorizeProject e (vars_projectId r) auth then Some (HelperResponse, w)
          else (case trial_quota_gate e auth w of
                  (Some response, w1) \<Rightarrow> Some (response, w1)
                | (None, w1) \<Rightarrow>
                    (case body r of
                       ReadError \<Rightarrow> Some (HttpError StatusInternalServerError, w1)
                     | ParseError \<Rightarrow> Some (HttpError StatusBadRequest, w1)
                     | Parsed requestBody_Name \<Rightarrow>
                         (case resolve_name auth (vars_projectId r) requestBody_Name w1 of
                            None \<Rightarrow> None
                          | Some (Inl response, w2) \<Rightarrow> Some (response, w2)
                          | Some (Inr name, w2) \<Rightarrow>
                              Some (create_and_respond e auth (vars_projectId r) name w2)))))"

subsection \<open>GetPlanHandler\<close>


subsection \<open>DeletePlanHandler\<close>

text \<open>
  After the row deletion the handler reads \<^verbatim>\<open>res.RowsAffected()\<close>, which can fail
  too (one more entry of the failure schedule), and only then deletes the directory.
\<close>

definition DeletePlanHandler :: "Env \<Rightarrow> Request \<Rightarrow> World \<Rightarrow> Response \<times> World" where
  "DeletePlanHandler e r w =
     (case authenticate r of
        None \<Rightarrow> (HelperResponse, w)
      | Some auth \<Rightarrow>
          (case authorizePlanDelete e (vars_planId r) auth of
             None \<Rightarrow> (HelperResponse, w)
           | Some plan \<Rightarrow>
               if plan_OwnerId plan \<noteq> auth_User_Id auth then (HttpError StatusForbidden, w)
               else (case exec_delete_plan (vars_planId r) w of
                       (None, w1) \<Rightarrow> (HttpError StatusInternalServerError, w1)
                     | (Some rowsAffected, w1) \<Rightarrow>
                         (let (failed, w2) = fallible w1 in
                          if failed then (HttpError StatusInternalServerError, w2)
                          else if rowsAffected = 0 then (HttpError StatusNotFound, w2)
                          else (let (failed', w3) = DeletePlanDir (auth_OrgId auth) (vars_planId r) w2 in
                                if failed' then (HttpError StatusInternalServerError, w3)
                                else (NoBody, w3))))))"

subsection \<open>DeleteAllPlansHandler\<close>

definition DeleteAllPlansHandler :: "Env \<Rightarrow> Request \<Rightarrow> World \<Rightarrow> Response \<times> World" where
  "DeleteAllPlansHandler e r w =
     (case authenticate r of
        None \<Rightarrow> (HelperResponse, w)
      | Some auth \<Rightarrow>
          if \<not> authorizeProject e (vars_projectId r) auth then (HelperResponse, w)
          else (let (failed, w') = DeleteOwnerPlans (auth_OrgId auth) (vars_projectId r) (auth_User_Id auth) w in
                if failed then (HttpError StatusInternalServerError, w')
                else (NoBody, w')))"

subsection \<open>The listing handlers\<close>

definition ListPlansHandler :: "Env \<Rightarrow> Request \<Rightarrow> World \<Rightarrow> Response \<times> World" where
  "ListPlansHandler e r w =
     (case authenticate r of
        None \<Rightarrow> (HelperResponse, w)
      | Some auth \<Rightarrow>
          if \<not> authorizeProject e (vars_projectId r) auth then (HelperResponse, w)
          else (case ListOwnedPlans e (vars_projectId r) (auth_User_Id auth) False [] w of
                  (None, w') \<Rightarrow> (HttpError StatusInternalServerError, w')
                | (Some ps, w') \<Rightarrow>
                    if marshal_fails e then (HttpError StatusInternalServerError, w')
                    else (WritePlans ps, w')))"

definition ListArchivedPlansHandler :: "Env \<Rightarrow> Request \<Rightarrow> World \<Rightarrow> Response \<times> World" where
  "ListArchivedPlansHandler e r w =
     (case authenticate r of
        None \<Rightarrow> (HelperResponse, w)
      | Some auth \<Rightarrow>
          if \<not> authorizeProject e (vars_projectId r) auth then (HelperResponse, w)
          else (case ListOwnedPlans e (vars_projectId r) [] True [] w of
                  (None, w') \<Rightarrow> (HttpError StatusInternalServerError, w')
                | (Some ps, w') \<Rightarrow>
                    if marshal_fails e then (HttpError StatusInternalServerError, w')
                    else (WritePlans ps, w')))"


subsection \<open>The handler set\<close>



section \<open>Notions used by the properties\<close>

text \<open>The store operations invoked between a world and a later one: what the run added
  to the log.\<close>

definition invoked :: "World \<Rightarrow> World \<Rightarrow> StoreCall list" where
  "invoked w w' = drop (length (calls w)) (calls w')"

text \<open>
  The sequence of names of the spec: \<open>N\<close>, \<open>N.2\<close>, \<open>N.3\<close>, ... (the first member has
  index 1).
\<close>

definition candidate :: "string \<Rightarrow> nat \<Rightarrow> string" where
  "candidate N k = (if k = 1 then N else N @ ''.'' @ Sprint (int k))"




text \<open>The draft rows of an (organisation, project, owner) scope.\<close>

definition scope_draft :: "string \<Rightarrow> string \<Rightarrow> string \<Rightarrow> Plan \<Rightarrow> bool" where
  "scope_draft orgId projectId userId p =
     (plan_OrgId p = orgId \<and> plan_ProjectId p = projectId \<and> plan_OwnerId p = userId
      \<and> plan_Name p = ''draft'')"

text \<open>The plan directories of the rows that a bulk deletion for an (organisation, project,
  owner) scope removes.\<close>

definition owned_dirs :: "string \<Rightarrow> string \<Rightarrow> string \<Rightarrow> World \<Rightarrow> (string \<times> string) list" where
  "owned_dirs orgId projectId userId w =
     map (\<lambda>p. (orgId, plan_Id p))
       (filter (\<lambda>p. plan_OrgId p = orgId \<and> plan_ProjectId p = projectId \<and> plan_OwnerId p = userId)
          (plans w))"

subsection \<open>Sample data\<close>

definition sample_auth :: "string \<Rightarrow> ServerAuth" where
  "sample_auth userId =
     \<lparr>auth_User_Id = userId, auth_OrgId = ''org1'', auth_Permissions = [PermissionCreatePlan]\<rparr>"

definition sample_plan :: "string \<Rightarrow> string \<Rightarrow> string \<Rightarrow> Plan" where
  "sample_plan planId userId name =
     \<lparr>plan_Id = planId, plan_OrgId = ''org1'', plan_OwnerId = userId, plan_ProjectId = ''proj1'',
      plan_Name = name\<rparr>"

definition sample_env :: "string \<Rightarrow> Env" where
  "sample_env cloud =
     \<lparr>IS_CLOUD = cloud,
      authorizeProject = (\<lambda>projectId auth. True),
      authorizePlan = (\<lambda>planId auth. Some (sample_plan planId ''u1'' ''a'')),
      authorizePlanDelete = (\<lambda>planId auth. Some (sample_plan planId ''u1'' ''a'')),
      ListOwnedPlans_rows = (\<lambda>projectId userId includeArchived status.
         filter (\<lambda>p. plan_ProjectId p = projectId \<and> (userId = [] \<or> plan_OwnerId p = userId))),
      marshal_fails = False\<rparr>"

definition sample_request :: "string \<Rightarrow> string \<Rightarrow> BodyResult \<Rightarrow> Request" where
  "sample_request userId planId b =
     \<lparr>authenticate = Some (sample_auth userId), vars_projectId = ''proj1'', vars_planId = planId,
      body = b\<rparr>"

definition sample_world :: "Plan list \<Rightarrow> User list \<Rightarrow> bool list \<Rightarrow> World" where
  "sample_world ps us fs =
     \<lparr>plans = ps, users = us, plan_dirs = map (\<lambda>p. (plan_OrgId p, plan_Id p)) ps, next_id = 100,
      faults = fs, calls = []\<rparr>"

definition trial_user :: "int \<Rightarrow> User" where
  "trial_user n = \<lparr>user_Id = ''u1'', IsTrial = True, NumNonDraftPlans = n\<rparr>"

text \<open>The number that a string of decimal digits denotes, to read a rendering back.\<close>

definition digit_val :: "char \<Rightarrow> nat" where
  "digit_val c = of_char c - 48"

definition decimal_val :: "string \<Rightarrow> nat" where
  "decimal_val cs = foldl (\<lambda>a c. 10 * a + digit_val c) 0 cs"

section \<open>Properties\<close>

subsection \<open>Decimal rendering and frame lemmas of the store operations\<close>

lemma digit_val_digit_char: "d < 10 \<Longrightarrow> digit_val (digit_char d) = d"
proof -
  assume "d < 10"
  then have "d \<in> {0,1,2,3,4,5,6,7,8,9}" by auto
  then show ?thesis
    by (auto simp: digit_val_def digit_char_def)
qed

lemma decimal_val_decimal: "decimal_val (decimal n) = n"
proof (induction n rule: decimal.induct)
  case (1 n)
  show ?case
  proof (cases "n < 10")
    case True
    then show ?thesis
      by (simp add: decimal.simps [of n] decimal_val_def digit_val_digit_char)
  next
    case False
    with 1 have "decimal_val (decimal (n div 10)) = n div 10" by simp
    with False show ?thesis
      by (simp add: decimal.simps [of n] decimal_val_def digit_val_digit_char)
  qed
qed

lemma decimal_inj: "decimal n = decimal m \<Longrightarrow> n = m"
  by (metis decimal_val_decimal)

lemma decimal_hd_not_minus: "hd (decimal n) \<noteq> CHR ''-''"
proof (induction n rule: decimal.induct)
  case (1 n)
  show ?case
  proof (cases "n < 10")
    case True
    then have "n \<in> {0,1,2,3,4,5,6,7,8,9}" by auto
    then show ?thesis
      by (auto simp: decimal.simps [of n] digit_char_def)
  next
    case False
    have ne: "decimal (n div 10) \<noteq> []"
      by (subst decimal.simps) simp
    from False 1 ne show ?thesis
      by (simp add: decimal.simps [of n])
  qed
qed

lemma decimal_not_Nil: "decimal n \<noteq> []"
  by (subst decimal.simps) simp

lemma Sprint_inj: "inj Sprint"
proof (rule injI)
  fix i j :: int
  assume eq: "Sprint i = Sprint j"
  show "i = j"
  proof (cases "i < 0"; cases "j < 0")
    assume "i < 0" "j < 0"
    with eq have "nat (- i) = nat (- j)" by (auto simp: Sprint_def dest: decimal_inj)
    with \<open>i < 0\<close> \<open>j < 0\<close> show ?thesis by simp
  next
    assume a: "i < 0" "\<not> j < 0"
    with eq have "CHR ''-'' # decimal (nat (- i)) = decimal (nat j)" by (simp add: Sprint_def)
    then have "hd (decimal (nat j)) = CHR ''-''" by (metis list.sel(1))
    then show ?thesis using decimal_hd_not_minus by blast
  next
    assume a: "\<not> i < 0" "j < 0"
    with eq have "CHR ''-'' # decimal (nat (- j)) = decimal (nat i)" by (simp add: Sprint_def)
    then have "hd (decimal (nat i)) = CHR ''-''" by (metis list.sel(1))
    then show ?thesis using decimal_hd_not_minus by blast
  next
    assume a: "\<not> i < 0" "\<not> j < 0"
    with eq have "nat i = nat j" by (auto simp: Sprint_def dest: decimal_inj)
    with a show ?thesis by simp
  qed
qed

lemma finite_scope_names: "finite (scope_names projectId userId w)"
  by (simp add: scope_names_def)

lemma count_plans_Some:
  assumes "count_plans projectId userId name w = (Some count, w')"
  shows "plans w' = plans w"
    and "(count \<noteq> 0) = (name \<in> scope_names projectId userId w)"
  using assms
  by (auto simp: count_plans_def store_call_def fallible_def scope_names_def filter_empty_conv
      split: list.splits if_splits)

lemma healthy_update [simp]:
  "healthy (w\<lparr>plans := ps\<rparr>) = healthy w"
  "healthy (w\<lparr>plan_dirs := ds\<rparr>) = healthy w"
  "healthy (w\<lparr>next_id := n\<rparr>) = healthy w"
  "healthy (w\<lparr>calls := cs\<rparr>) = healthy w"
  by (simp_all add: healthy_def)

lemma store_call_frame:
  assumes "store_call c w = (failed, w')"
  shows "plans w' = plans w" and "users w' = users w" and "plan_dirs w' = plan_dirs w"
    and "next_id w' = next_id w" and "calls w' = calls w @ [c]"
    and "healthy w \<Longrightarrow> healthy w' \<and> \<not> failed"
  using assms
  by (auto simp: store_call_def fallible_def healthy_def split: list.splits)

lemma fallible_frame:
  assumes "fallible w = (failed, w')"
  shows "plans w' = plans w" and "users w' = users w" and "plan_dirs w' = plan_dirs w"
    and "next_id w' = next_id w" and "calls w' = calls w"
    and "healthy w \<Longrightarrow> healthy w' \<and> \<not> failed"
  using assms
  by (auto simp: fallible_def healthy_def split: list.splits)

lemma GetUser_frame:
  assumes "GetUser userId w = (res, w')"
  shows "plans w' = plans w" and "users w' = users w" and "plan_dirs w' = plan_dirs w"
    and "next_id w' = next_id w" and "calls w' = calls w @ [Call_GetUser userId]"
    and "healthy w \<Longrightarrow> healthy w'"
  using assms
  by (auto simp: GetUser_def Let_def split: prod.splits if_splits dest: store_call_frame)

lemma count_plans_frame:
  assumes "count_plans projectId userId name w = (res, w')"
  shows "plans w' = plans w" and "users w' = users w" and "plan_dirs w' = plan_dirs w"
    and "next_id w' = next_id w"
    and "calls w' = calls w @ [Call_CountPlans projectId userId name]"
    and "healthy w \<Longrightarrow> healthy w' \<and> res \<noteq> None"
  using assms
  by (auto simp: count_plans_def Let_def split: prod.splits if_splits dest: store_call_frame)

lemma exec_delete_plan_frame:
  assumes "exec_delete_plan planId w = (res, w')"
  shows "users w' = users w" and "plan_dirs w' = plan_dirs w"
    and "next_id w' = next_id w" and "calls w' = calls w @ [Call_DeletePlanRow planId]"
    and "healthy w \<Longrightarrow> healthy w'"
    and "res = None \<Longrightarrow> plans w' = plans w"
    and "res = Some n \<Longrightarrow> plans w' = filter (\<lambda>p. plan_Id p \<noteq> planId) (plans w)
           \<and> n = int (length (filter (\<lambda>p. plan_Id p = planId) (plans w)))"
  using assms
  by (auto simp: exec_delete_plan_def Let_def split: prod.splits if_splits dest: store_call_frame)

lemma DeletePlanDir_frame:
  assumes "DeletePlanDir orgId planId w = (failed, w')"
  shows "plans w' = plans w" and "users w' = users w"
    and "next_id w' = next_id w" and "calls w' = calls w @ [Call_DeletePlanDir orgId planId]"
    and "healthy w \<Longrightarrow> healthy w' \<and> \<not> failed"
    and "failed \<Longrightarrow> plan_dirs w' = plan_dirs w"
    and "\<not> failed \<Longrightarrow> plan_dirs w' = filter (\<lambda>d. d \<noteq> (orgId, planId)) (plan_dirs w)"
  using assms
  by (auto simp: DeletePlanDir_def Let_def split: prod.splits if_splits dest: store_call_frame)

lemma DeleteOwnerPlans_frame:
  assumes "DeleteOwnerPlans orgId projectId userId w = (failed, w')"
  shows "users w' = users w"
    and "next_id w' = next_id w"
    and "calls w' = calls w @ [Call_DeleteOwnerPlans orgId projectId userId]"
    and "healthy w \<Longrightarrow> healthy w' \<and> \<not> failed"
    and "failed \<Longrightarrow> plans w' = plans w \<and> plan_dirs w' = plan_dirs w"
    and "\<not> failed \<Longrightarrow> plans w' = filter (\<lambda>p. \<not> (plan_OrgId p = orgId \<and> plan_ProjectId p = projectId
                          \<and> plan_OwnerId p = userId)) (plans w)"
    and "\<not> failed \<Longrightarrow> plan_dirs w'
           = filter (\<lambda>d. d \<notin> set (map (\<lambda>p. (orgId, plan_Id p))
                 (filter (\<lambda>p. plan_OrgId p = orgId \<and> plan_ProjectId p = projectId
                              \<and> plan_OwnerId p = userId) (plans w)))) (plan_dirs w)"
proof -
  obtain f w1 where sc: "store_call (Call_DeleteOwnerPlans orgId projectId userId) w = (f, w1)"
    by (cases "store_call (Call_DeleteOwnerPlans orgId projectId userId) w")
  note fr = store_call_frame [OF sc]
  have ff: "failed = f" using assms sc by (simp add: DeleteOwnerPlans_def Let_def split: if_splits)
  show "users w' = users w" and "next_id w' = next_id w"
    and "calls w' = calls w @ [Call_DeleteOwnerPlans orgId projectId userId]"
    and "healthy w \<Longrightarrow> healthy w' \<and> \<not> failed"
    and "failed \<Longrightarrow> plans w' = plans w \<and> plan_dirs w' = plan_dirs w"
    and "\<not> failed \<Longrightarrow> plans w' = filter (\<lambda>p. \<not> (plan_OrgId p = orgId \<and> plan_ProjectId p = projectId
                          \<and> plan_OwnerId p = userId)) (plans w)"
    and "\<not> failed \<Longrightarrow> plan_dirs w'
           = filter (\<lambda>d. d \<notin> set (map (\<lambda>p. (orgId, plan_Id p))
                 (filter (\<lambda>p. plan_OrgId p = orgId \<and> plan_ProjectId p = projectId
                              \<and> plan_OwnerId p = userId) (plans w)))) (plan_dirs w)"
    using assms sc fr
    by (auto simp: DeleteOwnerPlans_def Let_def healthy_def split: if_splits)
qed

lemma ListOwnedPlans_frame:
  assumes "ListOwnedPlans e projectId userId includeArchived status w = (res, w')"
  shows "plans w' = plans w" and "users w' = users w" and "plan_dirs w' = plan_dirs w"
    and "next_id w' = next_id w"
    and "calls w' = calls w @ [Call_ListOwnedPlans projectId userId includeArchived status]"
    and "healthy w \<Longrightarrow> healthy w'
           \<and> res = Some (ListOwnedPlans_rows e projectId userId includeArchived status (plans w))"
  using assms
  by (auto simp: ListOwnedPlans_def Let_def split: prod.splits if_splits dest: store_call_frame)

lemma CreatePlan_frame:
  assumes "CreatePlan orgId projectId userId name w = (res, w')"
  shows "users w' = users w" and "plan_dirs w' = plan_dirs w"
    and "calls w' = calls w @ [Call_CreatePlan orgId projectId userId name]"
    and "healthy w \<Longrightarrow> healthy w' \<and> res \<noteq> None"
    and "res = None \<Longrightarrow> plans w' = plans w \<and> next_id w' = next_id w"
    and "res = Some plan \<Longrightarrow>
           plan = \<lparr>plan_Id = decimal (next_id w), plan_OrgId = orgId, plan_OwnerId = userId,
                   plan_ProjectId = projectId, plan_Name = name\<rparr>
           \<and> plans w' = plans w @ [plan] \<and> next_id w' = Suc (next_id w)"
  using assms
  by (auto simp: CreatePlan_def Let_def split: prod.splits if_splits dest: store_call_frame)

lemma DeleteDraftPlans_frame:
  assumes "DeleteDraftPlans orgId projectId userId w = (failed, w')"
  shows "users w' = users w" and "plan_dirs w' = plan_dirs w" and "next_id w' = next_id w"
    and "calls w' = calls w @ [Call_DeleteDraftPlans orgId projectId userId]"
    and "healthy w \<Longrightarrow> healthy w' \<and> \<not> failed"
    and "failed \<Longrightarrow> plans w' = plans w"
    and "\<not> failed \<Longrightarrow> plans w' = filter (\<lambda>p. \<not> scope_draft orgId projectId userId p) (plans w)"
  using assms
  by (auto simp: DeleteDraftPlans_def scope_draft_def Let_def split: prod.splits if_splits
      dest: store_call_frame)

lemma trial_quota_gate_frame:
  assumes "trial_quota_gate e auth w = (res, w1)"
  shows "plans w1 = plans w" and "users w1 = users w" and "plan_dirs w1 = plan_dirs w"
    and "next_id w1 = next_id w" and "healthy w \<Longrightarrow> healthy w1"
    and "calls w1 = calls w \<or> calls w1 = calls w @ [Call_GetUser (auth_User_Id auth)]"
proof -
  obtain u w' where g: "GetUser (auth_User_Id auth) w = (u, w')"
    by (cases "GetUser (auth_User_Id auth) w")
  have "w1 = w \<or> w1 = w'"
    using assms g by (auto simp: trial_quota_gate_def split: if_splits option.splits)
  then show "plans w1 = plans w" and "users w1 = users w" and "plan_dirs w1 = plan_dirs w"
    and "next_id w1 = next_id w" and "healthy w \<Longrightarrow> healthy w1"
    and "calls w1 = calls w \<or> calls w1 = calls w @ [Call_GetUser (auth_User_Id auth)]"
    using GetUser_frame [OF g] by auto
qed

lemma scope_names_cong: "plans w' = plans w \<Longrightarrow> scope_names p u w' = scope_names p u w"
  by (simp add: scope_names_def)

lemma scope_names_list:
  "scope_names p u w
     = set (map plan_Name (filter (\<lambda>q. plan_ProjectId q = p \<and> plan_OwnerId q = u) (plans w)))"
  by (auto simp: scope_names_def)

lemma invoked_append [simp]: "calls w' = calls w @ cs \<Longrightarrow> invoked w w' = cs"
  by (simp add: invoked_def)

lemma invoked_same [simp]: "calls w' = calls w \<Longrightarrow> invoked w w' = []"
  by (simp add: invoked_def)

subsection \<open>Correctness of the naming loop\<close>

lemma candidate_Suc: "1 \<le> k \<Longrightarrow> candidate N (Suc k) = N @ ''.'' @ Sprint (int (Suc k))"
  by (simp add: candidate_def)

lemma candidate_inj:
  assumes "1 \<le> j" and "1 \<le> k" and "candidate N j = candidate N k"
  shows "j = k"
proof (cases "j = 1"; cases "k = 1")
  assume "j \<noteq> 1" and "k \<noteq> 1"
  with assms(3) have "Sprint (int j) = Sprint (int k)" by (simp add: candidate_def)
  then have "int j = int k" by (rule injD [OF Sprint_inj])
  then show ?thesis by simp
qed (use assms in \<open>auto simp: candidate_def\<close>)

text \<open>
  As long as the index stays below \<open>2^63\<close>, the signed value of the 64-bit counter is
  the index itself.
\<close>

lemma sint_of_nat_small: "n < 2 ^ 63 \<Longrightarrow> sint (word_of_nat n :: 64 word) = int n"
  by (simp add: signed_of_nat signed_take_bit_int_eq_self)

text \<open>
  The run of the loop from the \<open>k\<close>-th member of the sequence, with the counter at
  \<open>k + 1\<close>, to the first free member \<open>m\<close>, for \<open>m\<close> below \<open>2^63\<close>.
\<close>

lemma name_loop_finds:
  assumes "healthy w" and "1 \<le> k" and "k \<le> m" and "m < 2 ^ 63"
    and "\<forall>j. k \<le> j \<and> j < m \<longrightarrow> candidate N j \<in> scope_names p u w"
    and "candidate N m \<notin> scope_names p u w"
  shows "\<exists>w'. name_loop p u N (candidate N k) (word_of_nat (Suc k)) w = Some (Inr (candidate N m), w')
       \<and> calls w' = calls w @ map (\<lambda>j. Call_CountPlans p u (candidate N j)) [k..<Suc m]
       \<and> plans w' = plans w \<and> users w' = users w \<and> plan_dirs w' = plan_dirs w
       \<and> next_id w' = next_id w \<and> healthy w'"
  using assms
proof (induction "m - k" arbitrary: k w)
  case 0
  then have km: "k = m" by simp
  obtain res w1 where cp: "count_plans p u (candidate N m) w = (res, w1)"
    by (cases "count_plans p u (candidate N m) w")
  note fr = count_plans_frame [OF cp]
  from fr(6) "0.prems"(1) obtain c where c: "res = Some c" and h1: "healthy w1"
    by auto
  have "c = 0"
    using count_plans_Some(2) [OF cp [unfolded c]] "0.prems"(6) by simp
  then have nl: "name_loop p u N (candidate N m) i w = Some (Inr (candidate N m), w1)" for i
    by (subst name_loop.simps) (simp add: cp c)
  have cs: "calls w1 = calls w @ map (\<lambda>j. Call_CountPlans p u (candidate N j)) [m..<Suc m]"
    using fr(5) by simp
  show ?case
    unfolding km by (intro exI [of _ w1] conjI nl cs fr(1-4) h1)
next
  case (Suc d)
  then have lt: "k < m" by simp
  obtain res w1 where cp: "count_plans p u (candidate N k) w = (res, w1)"
    by (cases "count_plans p u (candidate N k) w")
  note fr = count_plans_frame [OF cp]
  from fr(6) Suc.prems(1) obtain c where c: "res = Some c" and h1: "healthy w1"
    by auto
  have "candidate N k \<in> scope_names p u w"
    using Suc.prems(5) lt by simp
  then have nz: "c \<noteq> 0"
    using count_plans_Some(2) [OF cp [unfolded c]] by simp
  have same: "scope_names p u w1 = scope_names p u w"
    using fr(1) by (rule scope_names_cong)
  have small: "Suc k < 2 ^ 63" using lt Suc.prems(4) by simp
  have nm: "N @ ''.'' @ Sprint (sint (word_of_nat (Suc k) :: 64 word)) = candidate N (Suc k)"
    using Suc.prems(2) by (simp only: sint_of_nat_small [OF small] candidate_Suc)
  have ct: "(word_of_nat (Suc k) :: 64 word) + 1 = word_of_nat (Suc (Suc k))"
    by simp
  have nl: "name_loop p u N (candidate N k) (word_of_nat (Suc k)) w
          = name_loop p u N (candidate N (Suc k)) (word_of_nat (Suc (Suc k))) w1"
    by (subst name_loop.simps) (simp only: cp c nz nm ct prod.case option.case if_False)
  have "\<exists>w'. name_loop p u N (candidate N (Suc k)) (word_of_nat (Suc (Suc k))) w1
           = Some (Inr (candidate N m), w')
       \<and> calls w' = calls w1 @ map (\<lambda>j. Call_CountPlans p u (candidate N j)) [Suc k..<Suc m]
       \<and> plans w' = plans w1 \<and> users w' = users w1 \<and> plan_dirs w' = plan_dirs w1
       \<and> next_id w' = next_id w1 \<and> healthy w'"
  proof (rule Suc.hyps(1))
    show "d = m - Suc k" using Suc.hyps(2) by simp
    show "healthy w1" by (rule h1)
    show "1 \<le> Suc k" by simp
    show "Suc k \<le> m" using lt by simp
    show "m < 2 ^ 63" by (rule Suc.prems(4))
    show "\<forall>j. Suc k \<le> j \<and> j < m \<longrightarrow> candidate N j \<in> scope_names p u w1"
      using Suc.prems(5) same by simp
    show "candidate N m \<notin> scope_names p u w1"
      using Suc.prems(6) same by simp
  qed
  then obtain w' where ih:
    "name_loop p u N (candidate N (Suc k)) (word_of_nat (Suc (Suc k))) w1 = Some (Inr (candidate N m), w')"
    "calls w' = calls w1 @ map (\<lambda>j. Call_CountPlans p u (candidate N j)) [Suc k..<Suc m]"
    "plans w' = plans w1" "users w' = users w1" "plan_dirs w' = plan_dirs w1"
    "next_id w' = next_id w1" "healthy w'"
    by blast
  have up: "[k..<Suc m] = k # [Suc k..<Suc m]"
    using lt by (simp add: upt_conv_Cons)
  have "calls w' = calls w @ map (\<lambda>j. Call_CountPlans p u (candidate N j)) [k..<Suc m]"
    unfolding ih(2) fr(5) up by simp
  with ih fr(1-4) show ?case
    unfolding nl by (intro exI [of _ w']) simp
qed


lemma free_candidate_exists:
  "\<exists>m\<ge>1. candidate N m \<notin> scope_names p u w"
proof (rule ccontr)
  assume "\<not> (\<exists>m\<ge>1. candidate N m \<notin> scope_names p u w)"
  then have sub: "candidate N ` {1..} \<subseteq> scope_names p u w" by auto
  have "inj_on (candidate N) {1..}"
  proof (rule inj_onI)
    fix x y :: nat
    assume "x \<in> {1..}" and "y \<in> {1..}" and "candidate N x = candidate N y"
    then show "x = y" using candidate_inj [of x y N] by simp
  qed
  then have "infinite (candidate N ` {1..})"
    by (simp add: finite_image_iff infinite_Ici)
  with sub finite_scope_names show False
    using finite_subset by blast
qed

lemma taken_prefix_bound:
  assumes "\<forall>j. 1 \<le> j \<and> j < m \<longrightarrow> candidate N j \<in> scope_names p u w"
  shows "m \<le> length (plans w) + 1"
proof -
  have inj: "inj_on (candidate N) {1..<m}"
  proof (rule inj_onI)
    fix x y :: nat
    assume "x \<in> {1..<m}" and "y \<in> {1..<m}" and "candidate N x = candidate N y"
    then show "x = y" using candidate_inj [of x y N] by simp
  qed
  have "candidate N ` {1..<m} \<subseteq> scope_names p u w"
    using assms by auto
  then have "card (candidate N ` {1..<m}) \<le> card (scope_names p u w)"
    by (rule card_mono [OF finite_scope_names])
  then have "m - 1 \<le> card (scope_names p u w)"
    using inj by (simp add: card_image)
  also have "\<dots> \<le> card (set (plans w))"
    unfolding scope_names_def by (intro order_trans [OF card_image_le] card_mono) auto
  also have "\<dots> \<le> length (plans w)"
    by (rule card_length)
  finally show ?thesis by simp
qed

text \<open>
  Termination whatever fails: started at the \<open>k\<close>-th member of the sequence with the
  counter at \<open>k + 1\<close>, the loop returns when some member \<open>m\<close> from \<open>k\<close> on, below
  \<open>2^63\<close>, is free. A failing query ends the loop at once.
\<close>

lemma name_loop_returns_from:
  assumes "1 \<le> k" and "k \<le> m" and "m < 2 ^ 63"
    and "candidate N m \<notin> scope_names p u w"
  shows "\<exists>y. name_loop p u N (candidate N k) (word_of_nat (Suc k)) w = Some y"
  using assms
proof (induction "m - k" arbitrary: k w)
  case 0
  then have km: "k = m" by simp
  obtain res w1 where cp: "count_plans p u (candidate N m) w = (res, w1)"
    by (cases "count_plans p u (candidate N m) w")
  show ?case
  proof (cases res)
    case None
    have "name_loop p u N (candidate N m) (word_of_nat (Suc m)) w
        = Some (Inl (HttpError StatusInternalServerError), w1)"
      by (subst name_loop.simps) (simp only: cp None prod.case option.case)
    then show ?thesis unfolding km by blast
  next
    case (Some c)
    have "c = 0"
      using count_plans_Some(2) [OF cp [unfolded Some]] "0.prems"(4) by simp
    then have "name_loop p u N (candidate N m) i w = Some (Inr (candidate N m), w1)" for i
      by (subst name_loop.simps) (simp add: cp Some)
    then show ?thesis unfolding km by blast
  qed
next
  case (Suc d)
  then have lt: "k < m" by simp
  obtain res w1 where cp: "count_plans p u (candidate N k) w = (res, w1)"
    by (cases "count_plans p u (candidate N k) w")
  show ?case
  proof (cases res)
    case None
    have "name_loop p u N (candidate N k) (word_of_nat (Suc k)) w
        = Some (Inl (HttpError StatusInternalServerError), w1)"
      by (subst name_loop.simps) (simp only: cp None prod.case option.case)
    then show ?thesis by blast
  next
    case (Some c)
    show ?thesis
    proof (cases "c = 0")
      case True
      then have "name_loop p u N (candidate N k) i w = Some (Inr (candidate N k), w1)" for i
        by (subst name_loop.simps) (simp add: cp Some)
      then show ?thesis by blast
    next
      case False
      have same: "scope_names p u w1 = scope_names p u w"
        using count_plans_Some(1) [OF cp [unfolded Some]] by (rule scope_names_cong)
      have small: "Suc k < 2 ^ 63" using lt Suc.prems(3) by simp
      have nm: "N @ ''.'' @ Sprint (sint (word_of_nat (Suc k) :: 64 word)) = candidate N (Suc k)"
        using Suc.prems(1) by (simp only: sint_of_nat_small [OF small] candidate_Suc)
      have ct: "(word_of_nat (Suc k) :: 64 word) + 1 = word_of_nat (Suc (Suc k))"
        by simp
      have nl: "name_loop p u N (candidate N k) (word_of_nat (Suc k)) w
              = name_loop p u N (candidate N (Suc k)) (word_of_nat (Suc (Suc k))) w1"
        by (subst name_loop.simps) (simp only: cp Some False nm ct prod.case option.case if_False)
      have "\<exists>y. name_loop p u N (candidate N (Suc k)) (word_of_nat (Suc (Suc k))) w1 = Some y"
      proof (rule Suc.hyps(1))
        show "d = m - Suc k" using Suc.hyps(2) by simp
        show "1 \<le> Suc k" by simp
        show "Suc k \<le> m" using lt by simp
        show "m < 2 ^ 63" by (rule Suc.prems(3))
        show "candidate N m \<notin> scope_names p u w1"
          using Suc.prems(4) same by simp
      qed
      then show ?thesis unfolding nl .
    qed
  qed
qed

text \<open>
  On a table of fewer than \<open>2^63 - 1\<close> rows the loop as the handler starts it returns,
  whatever fails.
\<close>

lemma name_loop_returns:
  assumes "length (plans w) < 2 ^ 63 - 1"
  shows "\<exists>y. name_loop p u N N 2 w = Some y"
proof -
  have c1: "candidate N 1 = N" "(word_of_nat (Suc 1) :: 64 word) = 2" by (simp_all add: candidate_def)
  define m where "m = (LEAST m. 1 \<le> m \<and> candidate N m \<notin> scope_names p u w)"
  have ex: "\<exists>m. 1 \<le> m \<and> candidate N m \<notin> scope_names p u w"
    using free_candidate_exists [of N p u w] by blast
  have m1: "1 \<le> m" and free: "candidate N m \<notin> scope_names p u w"
    using LeastI_ex [OF ex] by (simp_all add: m_def)
  have taken: "\<forall>j. 1 \<le> j \<and> j < m \<longrightarrow> candidate N j \<in> scope_names p u w"
  proof (intro allI impI)
    fix j assume j: "1 \<le> j \<and> j < m"
    then have "\<not> (1 \<le> j \<and> candidate N j \<notin> scope_names p u w)"
      unfolding m_def by (intro not_less_Least) simp
    with j show "candidate N j \<in> scope_names p u w" by simp
  qed
  have "m \<le> length (plans w) + 1"
    using taken by (rule taken_prefix_bound)
  then have small: "m < 2 ^ 63" using assms by simp
  have "\<exists>y. name_loop p u N (candidate N 1) (word_of_nat (Suc 1)) w = Some y"
    using _ m1 small free by (rule name_loop_returns_from) simp
  then show ?thesis unfolding c1 .
qed

text \<open>Past \<open>2^63 - 1\<close> the counter of the loop wraps to the least 64-bit integer.\<close>

lemma counter_wraps:
  "Sprint (sint ((2 ^ 63 - 1 :: 64 word) + 1)) = ''-9223372036854775808''"
  by (simp add: Sprint_def decimal.simps digit_char_def)

text \<open>
  Claim C8. The naming loop has no cap on the number of its rounds; its counter is a
  64-bit integer that wraps. On every table of fewer than \<open>2^63 - 1\<close> rows the loop,
  started with \<^verbatim>\<open>name = N\<close> and \<^verbatim>\<open>i = 2\<close>, returns, whatever fails. When moreover no
  query fails, it returns the first member of the sequence \<open>N\<close>, \<open>N.2\<close>, \<open>N.3\<close>, ...
  that no row of the (project id, owner id) scope bears: all earlier members are
  taken, the existence queries it made are exactly those for the members up to the
  returned one, and their number is at most the number of rows of the table plus one.
  No constant bounds the number of rounds: for every \<open>n\<close> below \<open>2^63 - 1\<close> there is a
  table of \<open>n\<close> rows on which the loop returns after \<open>n + 1\<close> queries.
\<close>

theorem name_loop_returns_first_unused:
  "(length (plans w) < 2 ^ 63 - 1 \<longrightarrow>
      (\<exists>y. name_loop projectId userId N N 2 w = Some y))
   \<and> (healthy w \<and> length (plans w) < 2 ^ 63 - 1 \<longrightarrow>
      (\<exists>m\<ge>1. \<exists>w'. name_loop projectId userId N N 2 w = Some (Inr (candidate N m), w')
          \<and> candidate N m \<notin> scope_names projectId userId w
          \<and> (\<forall>j. 1 \<le> j \<and> j < m \<longrightarrow> candidate N j \<in> scope_names projectId userId w)
          \<and> invoked w w' = map (\<lambda>j. Call_CountPlans projectId userId (candidate N j)) [1..<Suc m]
          \<and> m \<le> length (plans w) + 1))
   \<and> (\<forall>n. n < 2 ^ 63 - 1 \<longrightarrow>
         (\<exists>w r w'. healthy w \<and> length (plans w) = n
            \<and> name_loop projectId userId N N 2 w = Some (r, w')
            \<and> length (invoked w w') = Suc n))"
proof (intro conjI impI allI)
  assume "length (plans w) < 2 ^ 63 - 1"
  then show "\<exists>y. name_loop projectId userId N N 2 w = Some y"
    by (rule name_loop_returns)
next
  assume hb: "healthy w \<and> length (plans w) < 2 ^ 63 - 1"
  then have h: "healthy w" and b: "length (plans w) < 2 ^ 63 - 1" by simp_all
  have c1: "candidate N 1 = N" "(word_of_nat (Suc 1) :: 64 word) = 2" by (simp_all add: candidate_def)
  define m where "m = (LEAST m. 1 \<le> m \<and> candidate N m \<notin> scope_names projectId userId w)"
  have ex: "\<exists>m. 1 \<le> m \<and> candidate N m \<notin> scope_names projectId userId w"
    using free_candidate_exists [of N projectId userId w] by blast
  have m1: "1 \<le> m" and free: "candidate N m \<notin> scope_names projectId userId w"
    using LeastI_ex [OF ex] by (simp_all add: m_def)
  have taken: "\<forall>j. 1 \<le> j \<and> j < m \<longrightarrow> candidate N j \<in> scope_names projectId userId w"
  proof (intro allI impI)
    fix j assume j: "1 \<le> j \<and> j < m"
    then have "\<not> (1 \<le> j \<and> candidate N j \<notin> scope_names projectId userId w)"
      unfolding m_def by (intro not_less_Least) simp
    with j show "candidate N j \<in> scope_names projectId userId w" by simp
  qed
  have bound: "m \<le> length (plans w) + 1"
    using taken by (rule taken_prefix_bound)
  have small: "m < 2 ^ 63" using bound b by simp
  have "\<exists>w'. name_loop projectId userId N (candidate N 1) (word_of_nat (Suc 1)) w
           = Some (Inr (candidate N m), w')
       \<and> calls w' = calls w @ map (\<lambda>j. Call_CountPlans projectId userId (candidate N j)) [1..<Suc m]
       \<and> plans w' = plans w \<and> users w' = users w \<and> plan_dirs w' = plan_dirs w
       \<and> next_id w' = next_id w \<and> healthy w'"
    using h _ m1 small taken free by (rule name_loop_finds) simp
  then obtain w' where run: "name_loop projectId userId N N 2 w = Some (Inr (candidate N m), w')"
    and cs: "calls w' = calls w @ map (\<lambda>j. Call_CountPlans projectId userId (candidate N j)) [1..<Suc m]"
    unfolding c1 by blast
  have inv: "invoked w w' = map (\<lambda>j. Call_CountPlans projectId userId (candidate N j)) [1..<Suc m]"
    using cs by (rule invoked_append)
  show "\<exists>m\<ge>1. \<exists>w'. name_loop projectId userId N N 2 w = Some (Inr (candidate N m), w')
          \<and> candidate N m \<notin> scope_names projectId userId w
          \<and> (\<forall>j. 1 \<le> j \<and> j < m \<longrightarrow> candidate N j \<in> scope_names projectId userId w)
          \<and> invoked w w' = map (\<lambda>j. Call_CountPlans projectId userId (candidate N j)) [1..<Suc m]
          \<and> m \<le> length (plans w) + 1"
    by (intro exI [of _ m] exI [of _ w'] conjI m1 run free taken inv bound)
next
  fix n :: nat
  assume n: "n < 2 ^ 63 - 1"
  have c1: "candidate N 1 = N" "(word_of_nat (Suc 1) :: 64 word) = 2" by (simp_all add: candidate_def)
  define row where "row = (\<lambda>j. \<lparr>plan_Id = [], plan_OrgId = [], plan_OwnerId = userId,
      plan_ProjectId = projectId, plan_Name = candidate N j\<rparr>)"
  define w where "w = \<lparr>plans = map row [1..<Suc n], users = [], plan_dirs = [], next_id = 0,
      faults = [], calls = []\<rparr>"
  have pl: "plans w = map row [1..<Suc n]" by (simp add: w_def)
  have len: "length (plans w) = n" unfolding pl by simp
  have "{p \<in> set (map row [1..<Suc n]). plan_ProjectId p = projectId \<and> plan_OwnerId p = userId}
      = row ` {1..<Suc n}"
    by (auto simp: row_def simp del: upt_Suc)
  then have names: "scope_names projectId userId w = candidate N ` {1..<Suc n}"
    unfolding scope_names_def pl by (simp add: image_image row_def del: upt_Suc)
  have h: "healthy w" by (simp add: healthy_def w_def)
  have taken: "\<forall>j. 1 \<le> j \<and> j < Suc n \<longrightarrow> candidate N j \<in> scope_names projectId userId w"
    by (simp add: names)
  have free: "candidate N (Suc n) \<notin> scope_names projectId userId w"
  proof
    assume "candidate N (Suc n) \<in> scope_names projectId userId w"
    then obtain j where "1 \<le> j" and "j < Suc n" and "candidate N (Suc n) = candidate N j"
      by (auto simp: names)
    then show False using candidate_inj [of "Suc n" j N] by simp
  qed
  have small: "Suc n < 2 ^ 63" using n by simp
  have "\<exists>w'. name_loop projectId userId N (candidate N 1) (word_of_nat (Suc 1)) w
           = Some (Inr (candidate N (Suc n)), w')
       \<and> calls w' = calls w @ map (\<lambda>j. Call_CountPlans projectId userId (candidate N j)) [1..<Suc (Suc n)]
       \<and> plans w' = plans w \<and> users w' = users w \<and> plan_dirs w' = plan_dirs w
       \<and> next_id w' = next_id w \<and> healthy w'"
    using h _ _ small taken free by (rule name_loop_finds) simp_all
  then obtain w' where run: "name_loop projectId userId N N 2 w = Some (Inr (candidate N (Suc n)), w')"
    and cs: "calls w' = calls w @ map (\<lambda>j. Call_CountPlans projectId userId (candidate N j)) [1..<Suc (Suc n)]"
    unfolding c1 by blast
  have "invoked w w' = map (\<lambda>j. Call_CountPlans projectId userId (candidate N j)) [1..<Suc (Suc n)]"
    using cs by (rule invoked_append)
  then have cnt: "length (invoked w w') = Suc n"
    by (simp del: upt_Suc)
  show "\<exists>w r w'. healthy w \<and> length (plans w) = n
            \<and> name_loop projectId userId N N 2 w = Some (r, w')
            \<and> length (invoked w w') = Suc n"
    by (intro exI [of _ w] exI [of _ "Inr (candidate N (Suc n))"] exI [of _ w'] conjI h len run cnt)
qed

theorem name_loop_returns_first_unused_witness:
  "healthy (sample_world [sample_plan ''7'' ''u1'' ''a'', sample_plan ''8'' ''u1'' ''a.2''] [] [])
   \<and> length (plans (sample_world [sample_plan ''7'' ''u1'' ''a'', sample_plan ''8'' ''u1'' ''a.2''] [] []))
       < 2 ^ 63 - 1
   \<and> map_option fst (name_loop ''proj1'' ''u1'' ''a'' ''a'' 2
          (sample_world [sample_plan ''7'' ''u1'' ''a'', sample_plan ''8'' ''u1'' ''a.2''] [] []))
       = Some (Inr ''a.3'')
   \<and> map_option (\<lambda>y. invoked
          (sample_world [sample_plan ''7'' ''u1'' ''a'', sample_plan ''8'' ''u1'' ''a.2''] [] []) (snd y))
        (name_loop ''proj1'' ''u1'' ''a'' ''a'' 2
          (sample_world [sample_plan ''7'' ''u1'' ''a'', sample_plan ''8'' ''u1'' ''a.2''] [] []))
       = Some [Call_CountPlans ''proj1'' ''u1'' ''a'', Call_CountPlans ''proj1'' ''u1'' ''a.2'',
               Call_CountPlans ''proj1'' ''u1'' ''a.3'']"
proof -
  let ?w = "sample_world [sample_plan ''7'' ''u1'' ''a'', sample_plan ''8'' ''u1'' ''a.2''] [] []"
  have h: "healthy ?w" by (simp add: healthy_def sample_world_def)
  have b: "length (plans ?w) < 2 ^ 63 - 1" by (simp add: sample_world_def)
  have names: "scope_names ''proj1'' ''u1'' ?w = {''a'', ''a.2''}"
    by (simp add: scope_names_list sample_world_def sample_plan_def)
  have c1: "candidate ''a'' (Suc 0) = ''a''" by (simp add: candidate_def)
  have c2: "candidate ''a'' 2 = ''a.2''"
    by (simp add: candidate_def Sprint_def decimal.simps digit_char_def)
  have c3: "candidate ''a'' 3 = ''a.3''"
    by (simp add: candidate_def Sprint_def decimal.simps digit_char_def)
  from name_loop_returns_first_unused [of ?w "''proj1''" "''u1''" "''a''"] h b
  obtain m w' where m1: "1 \<le> m"
    and run: "name_loop ''proj1'' ''u1'' ''a'' ''a'' 2 ?w = Some (Inr (candidate ''a'' m), w')"
    and free: "candidate ''a'' m \<notin> scope_names ''proj1'' ''u1'' ?w"
    and taken: "\<forall>j. 1 \<le> j \<and> j < m \<longrightarrow> candidate ''a'' j \<in> scope_names ''proj1'' ''u1'' ?w"
    and inv: "invoked ?w w' = map (\<lambda>j. Call_CountPlans ''proj1'' ''u1'' (candidate ''a'' j)) [1..<Suc m]"
    by blast
  have "m \<noteq> 1" using free c1 names by auto
  moreover have "m \<noteq> 2" using free c2 names by auto
  moreover have "\<not> 3 < m"
  proof
    assume "3 < m"
    with taken have "candidate ''a'' 3 \<in> scope_names ''proj1'' ''u1'' ?w" by simp
    then show False by (simp add: c3 names)
  qed
  ultimately have m: "m = 3" using m1 by arith
  have up: "[1..<Suc 3] = [1, 2, 3]" by (simp add: upt_rec)
  show ?thesis
    using h b run inv unfolding m up by (simp add: c1 c2 c3)
qed

subsection \<open>The trial quota gate\<close>

text \<open>
  Claim C3. The trial quota gate lets the creation go on if and only if cloud mode is
  off (\<^verbatim>\<open>IS_CLOUD\<close> is empty), or the user is not on trial, or the user's number of
  non-draft plans is below 10. When the gate refuses, the response is the structured
  error of type TrialPlansExceeded with \<open>MaxPlans = 10\<close> and status 403 (Forbidden, a
  client error and not a server fault). Here \<open>user\<close> is the row that the user lookup
  of the gate returns; the lookup only happens in cloud mode.
\<close>

theorem trial_quota_gate_permits_iff:
  assumes "IS_CLOUD e \<noteq> [] \<Longrightarrow> fst (GetUser (auth_User_Id auth) w) = Some user"
  shows "(fst (trial_quota_gate e auth w) = None)
           = (IS_CLOUD e = [] \<or> \<not> IsTrial user \<or> NumNonDraftPlans user < 10)
       \<and> (fst (trial_quota_gate e auth w) \<noteq> None \<longrightarrow>
            fst (trial_quota_gate e auth w)
              = Some (WriteApiError \<lparr>err_Type = ApiErrorTypeTrialPlansExceeded, err_Status = 403,
                    err_Msg = ''User has reached max number of free trial plans'',
                    err_TrialPlansExceededError = Some \<lparr>MaxPlans = 10\<rparr>\<rparr>))"
proof (cases "IS_CLOUD e = []")
  case True
  then show ?thesis by (simp add: trial_quota_gate_def)
next
  case False
  with assms have gu: "fst (GetUser (auth_User_Id auth) w) = Some user" by simp
  then obtain w' where "GetUser (auth_User_Id auth) w = (Some user, w')"
    by (cases "GetUser (auth_User_Id auth) w") simp
  with False show ?thesis
    by (auto simp: trial_quota_gate_def TrialMaxPlans_def StatusForbidden_def)
qed

theorem trial_quota_gate_permits_iff_witness:
  "fst (trial_quota_gate (sample_env ''1'') (sample_auth ''u1'') (sample_world [] [trial_user 10] []))
     = Some (WriteApiError \<lparr>err_Type = ApiErrorTypeTrialPlansExceeded, err_Status = 403,
               err_Msg = ''User has reached max number of free trial plans'',
               err_TrialPlansExceededError = Some \<lparr>MaxPlans = 10\<rparr>\<rparr>)
   \<and> fst (trial_quota_gate (sample_env ''1'') (sample_auth ''u1'') (sample_world [] [trial_user 9] [])) = None
   \<and> fst (trial_quota_gate (sample_env []) (sample_auth ''u1'') (sample_world [] [trial_user 10] [])) = None"
proof -
  have g: "\<And>n. fst (GetUser (auth_User_Id (sample_auth ''u1'')) (sample_world [] [trial_user n] []))
             = Some (trial_user n)"
    by (simp add: GetUser_def store_call_def fallible_def sample_auth_def sample_world_def
        trial_user_def)
  from trial_quota_gate_permits_iff [of "sample_env ''1''" "sample_auth ''u1''"
      "sample_world [] [trial_user 10] []" "trial_user 10"] g
  have a: "fst (trial_quota_gate (sample_env ''1'') (sample_auth ''u1'') (sample_world [] [trial_user 10] []))
     = Some (WriteApiError \<lparr>err_Type = ApiErrorTypeTrialPlansExceeded, err_Status = 403,
               err_Msg = ''User has reached max number of free trial plans'',
               err_TrialPlansExceededError = Some \<lparr>MaxPlans = 10\<rparr>\<rparr>)"
    by (simp add: sample_env_def trial_user_def)
  from trial_quota_gate_permits_iff [of "sample_env ''1''" "sample_auth ''u1''"
      "sample_world [] [trial_user 9] []" "trial_user 9"] g
  have b: "fst (trial_quota_gate (sample_env ''1'') (sample_auth ''u1'') (sample_world [] [trial_user 9] [])) = None"
    by (simp add: sample_env_def trial_user_def)
  from trial_quota_gate_permits_iff [of "sample_env []" "sample_auth ''u1''"
      "sample_world [] [trial_user 10] []" "trial_user 10"]
  have c: "fst (trial_quota_gate (sample_env []) (sample_auth ''u1'') (sample_world [] [trial_user 10] [])) = None"
    by (simp add: sample_env_def trial_user_def)
  from a b c show ?thesis by simp
qed

text \<open>
  Claim C5. When the trial quota gate fails (cloud mode on, the user on trial with at
  least 10 non-draft plans), the creation handler returns with the quota error and has
  invoked nothing but the user lookup: neither \<^verbatim>\<open>DeleteDraftPlans\<close> nor
  \<^verbatim>\<open>CreatePlan\<close> nor the existence query is in the log, and the plan table, the user
  rows, the plan directories and the id supply are as before.
\<close>

theorem quota_failure_short_circuits:
  assumes "authenticate r = Some auth"
    and "HasPermission auth PermissionCreatePlan"
    and "authorizeProject e (vars_projectId r) auth"
    and "IS_CLOUD e \<noteq> []"
    and "fst (GetUser (auth_User_Id auth) w) = Some user"
    and "IsTrial user" and "NumNonDraftPlans user \<ge> 10"
  shows "\<exists>w'. CreatePlanHandler e r w
           = Some (WriteApiError \<lparr>err_Type = ApiErrorTypeTrialPlansExceeded, err_Status = 403,
               err_Msg = ''User has reached max number of free trial plans'',
               err_TrialPlansExceededError = Some \<lparr>MaxPlans = 10\<rparr>\<rparr>, w')
       \<and> invoked w w' = [Call_GetUser (auth_User_Id auth)]
       \<and> plans w' = plans w
       \<and> users w' = users w
       \<and> plan_dirs w' = plan_dirs w
       \<and> next_id w' = next_id w"
proof -
  obtain w' where gu: "GetUser (auth_User_Id auth) w = (Some user, w')"
    using assms(5) by (cases "GetUser (auth_User_Id auth) w") simp
  have gate: "trial_quota_gate e auth w
      = (Some (WriteApiError \<lparr>err_Type = ApiErrorTypeTrialPlansExceeded, err_Status = 403,
               err_Msg = ''User has reached max number of free trial plans'',
               err_TrialPlansExceededError = Some \<lparr>MaxPlans = 10\<rparr>\<rparr>), w')"
    using assms(4,6,7) gu
    by (simp add: trial_quota_gate_def TrialMaxPlans_def StatusForbidden_def)
  have h: "CreatePlanHandler e r w
      = Some (WriteApiError \<lparr>err_Type = ApiErrorTypeTrialPlansExceeded, err_Status = 403,
               err_Msg = ''User has reached max number of free trial plans'',
               err_TrialPlansExceededError = Some \<lparr>MaxPlans = 10\<rparr>\<rparr>, w')"
    using assms(1-3) gate by (simp add: CreatePlanHandler_def)
  show ?thesis
    using GetUser_frame [OF gu] by (intro exI [of _ w']) (simp add: h)
qed

theorem quota_failure_short_circuits_witness:
  "map_option fst (CreatePlanHandler (sample_env ''1'') (sample_request ''u1'' [] (Parsed ''a''))
          (sample_world [sample_plan ''7'' ''u1'' ''draft''] [trial_user 10] []))
     = Some (WriteApiError \<lparr>err_Type = ApiErrorTypeTrialPlansExceeded, err_Status = 403,
               err_Msg = ''User has reached max number of free trial plans'',
               err_TrialPlansExceededError = Some \<lparr>MaxPlans = 10\<rparr>\<rparr>)
   \<and> map_option (\<lambda>y. plans (snd y))
        (CreatePlanHandler (sample_env ''1'') (sample_request ''u1'' [] (Parsed ''a''))
          (sample_world [sample_plan ''7'' ''u1'' ''draft''] [trial_user 10] []))
     = Some [sample_plan ''7'' ''u1'' ''draft'']
   \<and> map_option (\<lambda>y. invoked (sample_world [sample_plan ''7'' ''u1'' ''draft''] [trial_user 10] [])
                       (snd y))
        (CreatePlanHandler (sample_env ''1'') (sample_request ''u1'' [] (Parsed ''a''))
          (sample_world [sample_plan ''7'' ''u1'' ''draft''] [trial_user 10] []))
     = Some [Call_GetUser ''u1'']"
proof -
  let ?w = "sample_world [sample_plan ''7'' ''u1'' ''draft''] [trial_user 10] []"
  let ?r = "sample_request ''u1'' [] (Parsed ''a'')"
  have g: "fst (GetUser (auth_User_Id (sample_auth ''u1'')) ?w) = Some (trial_user 10)"
    by (simp add: GetUser_def store_call_def fallible_def sample_auth_def sample_world_def
        trial_user_def)
  have pre: "authenticate ?r = Some (sample_auth ''u1'')"
    "HasPermission (sample_auth ''u1'') PermissionCreatePlan"
    "authorizeProject (sample_env ''1'') (vars_projectId ?r) (sample_auth ''u1'')"
    "IS_CLOUD (sample_env ''1'') \<noteq> []"
    "IsTrial (trial_user 10)" "NumNonDraftPlans (trial_user 10) \<ge> 10"
    by (simp_all add: sample_request_def sample_env_def sample_auth_def HasPermission_def
        trial_user_def)
  from quota_failure_short_circuits [OF pre(1-4) g pre(5,6)]
  obtain w' where h: "CreatePlanHandler (sample_env ''1'') ?r ?w
           = Some (WriteApiError \<lparr>err_Type = ApiErrorTypeTrialPlansExceeded, err_Status = 403,
               err_Msg = ''User has reached max number of free trial plans'',
               err_TrialPlansExceededError = Some \<lparr>MaxPlans = 10\<rparr>\<rparr>, w')"
    and i: "invoked ?w w' = [Call_GetUser (auth_User_Id (sample_auth ''u1''))]"
    and p: "plans w' = plans ?w"
    by blast
  have i': "invoked ?w w' = [Call_GetUser ''u1'']"
    using i by (simp add: sample_auth_def)
  have p': "plans w' = [sample_plan ''7'' ''u1'' ''draft'']"
    using p by (simp add: sample_world_def)
  show ?thesis
    unfolding h by (simp add: i' p')
qed

subsection \<open>Single-plan deletion\<close>

text \<open>
  Claim C6. In the single-plan deletion, when the plan that the authorization returned
  is owned by somebody other than the caller, the handler answers 403 (Forbidden) and
  the world is exactly as before: no row and no directory is deleted and no store
  operation is invoked. When the caller is the owner and the row deletion affects zero
  rows, the handler answers 404 (NotFound) and has invoked the row deletion only: no
  plan directory is deleted, and the table is as before.
\<close>

theorem delete_forbidden_and_not_found:
  assumes "authenticate r = Some auth"
    and "authorizePlanDelete e (vars_planId r) auth = Some plan"
  shows "(plan_OwnerId plan \<noteq> auth_User_Id auth \<longrightarrow>
            DeletePlanHandler e r w = (HttpError 403, w))
       \<and> (plan_OwnerId plan = auth_User_Id auth
            \<and> fst (exec_delete_plan (vars_planId r) w) = Some 0
            \<and> \<not> fst (fallible (snd (exec_delete_plan (vars_planId r) w))) \<longrightarrow>
            fst (DeletePlanHandler e r w) = HttpError 404
            \<and> invoked w (snd (DeletePlanHandler e r w)) = [Call_DeletePlanRow (vars_planId r)]
            \<and> plan_dirs (snd (DeletePlanHandler e r w)) = plan_dirs w
            \<and> plans (snd (DeletePlanHandler e r w)) = plans w)"
proof (intro conjI impI)
  assume "plan_OwnerId plan \<noteq> auth_User_Id auth"
  with assms show "DeletePlanHandler e r w = (HttpError 403, w)"
    by (simp add: DeletePlanHandler_def StatusForbidden_def)
next
  assume a: "plan_OwnerId plan = auth_User_Id auth
            \<and> fst (exec_delete_plan (vars_planId r) w) = Some 0
            \<and> \<not> fst (fallible (snd (exec_delete_plan (vars_planId r) w)))"
  obtain w1 where ex: "exec_delete_plan (vars_planId r) w = (Some 0, w1)"
    using a by (cases "exec_delete_plan (vars_planId r) w") simp
  obtain w2 where fa: "fallible w1 = (False, w2)"
    using a ex by (cases "fallible w1") simp
  have h: "DeletePlanHandler e r w = (HttpError 404, w2)"
    using assms a ex fa by (simp add: DeletePlanHandler_def StatusNotFound_def)
  have none: "filter (\<lambda>p. plan_Id p = vars_planId r) (plans w) = []"
    using exec_delete_plan_frame(7) [OF ex] by simp
  have "filter (\<lambda>p. plan_Id p \<noteq> vars_planId r) (plans w) = plans w"
    using none by (simp add: filter_empty_conv filter_id_conv)
  then have pl: "plans w2 = plans w"
    using exec_delete_plan_frame(7) [OF ex] fallible_frame(1) [OF fa] by simp
  show "fst (DeletePlanHandler e r w) = HttpError 404" by (simp add: h)
  show "invoked w (snd (DeletePlanHandler e r w)) = [Call_DeletePlanRow (vars_planId r)]"
    using exec_delete_plan_frame(4) [OF ex] fallible_frame(5) [OF fa] by (simp add: h)
  show "plan_dirs (snd (DeletePlanHandler e r w)) = plan_dirs w"
    using exec_delete_plan_frame(2) [OF ex] fallible_frame(3) [OF fa] by (simp add: h)
  show "plans (snd (DeletePlanHandler e r w)) = plans w"
    using pl by (simp add: h)
qed

theorem delete_forbidden_and_not_found_witness:
  "DeletePlanHandler (sample_env []) (sample_request ''u2'' ''7'' ReadError)
       (sample_world [sample_plan ''7'' ''u1'' ''a''] [] [])
     = (HttpError 403, sample_world [sample_plan ''7'' ''u1'' ''a''] [] [])
   \<and> fst (DeletePlanHandler (sample_env []) (sample_request ''u1'' ''8'' ReadError)
       (sample_world [sample_plan ''7'' ''u1'' ''a''] [] [])) = HttpError 404
   \<and> plan_dirs (snd (DeletePlanHandler (sample_env []) (sample_request ''u1'' ''8'' ReadError)
       (sample_world [sample_plan ''7'' ''u1'' ''a''] [] []))) = [(''org1'', ''7'')]
   \<and> plans (snd (DeletePlanHandler (sample_env []) (sample_request ''u1'' ''8'' ReadError)
       (sample_world [sample_plan ''7'' ''u1'' ''a''] [] []))) = [sample_plan ''7'' ''u1'' ''a'']"
proof -
  have a: "DeletePlanHandler (sample_env []) (sample_request ''u2'' ''7'' ReadError)
       (sample_world [sample_plan ''7'' ''u1'' ''a''] [] [])
     = (HttpError 403, sample_world [sample_plan ''7'' ''u1'' ''a''] [] [])"
    using delete_forbidden_and_not_found [of "sample_request ''u2'' ''7'' ReadError"
        "sample_auth ''u2''" "sample_env []" "sample_plan ''7'' ''u1'' ''a''"
        "sample_world [sample_plan ''7'' ''u1'' ''a''] [] []"]
    by (simp add: sample_request_def sample_env_def sample_auth_def sample_plan_def)
  have b: "fst (DeletePlanHandler (sample_env []) (sample_request ''u1'' ''8'' ReadError)
       (sample_world [sample_plan ''7'' ''u1'' ''a''] [] [])) = HttpError 404
   \<and> plan_dirs (snd (DeletePlanHandler (sample_env []) (sample_request ''u1'' ''8'' ReadError)
       (sample_world [sample_plan ''7'' ''u1'' ''a''] [] []))) = [(''org1'', ''7'')]
   \<and> plans (snd (DeletePlanHandler (sample_env []) (sample_request ''u1'' ''8'' ReadError)
       (sample_world [sample_plan ''7'' ''u1'' ''a''] [] []))) = [sample_plan ''7'' ''u1'' ''a'']"
    using delete_forbidden_and_not_found [of "sample_request ''u1'' ''8'' ReadError"
        "sample_auth ''u1''" "sample_env []" "sample_plan ''8'' ''u1'' ''a''"
        "sample_world [sample_plan ''7'' ''u1'' ''a''] [] []"]
    by (simp add: sample_request_def sample_env_def sample_auth_def sample_plan_def
        sample_world_def exec_delete_plan_def store_call_def fallible_def)
  from a b show ?thesis by simp
qed

text \<open>
  Claim C7. In the single-plan deletion, when the row deletion succeeds with at least
  one row affected and the deletion of the plan directory then fails, the handler
  answers 500 (a server error) and the row deletion stands: the table afterwards is the
  old table without the rows of that id, it has no row of that id, and it is shorter
  than before.
\<close>

theorem directory_failure_keeps_row_deleted:
  assumes "authenticate r = Some auth"
    and "authorizePlanDelete e (vars_planId r) auth = Some plan"
    and "plan_OwnerId plan = auth_User_Id auth"
    and "fst (exec_delete_plan (vars_planId r) w) = Some n" and "n \<noteq> 0"
    and "\<not> fst (fallible (snd (exec_delete_plan (vars_planId r) w)))"
    and "fst (DeletePlanDir (auth_OrgId auth) (vars_planId r)
                (snd (fallible (snd (exec_delete_plan (vars_planId r) w)))))"
  shows "fst (DeletePlanHandler e r w) = HttpError 500
       \<and> plans (snd (DeletePlanHandler e r w)) = filter (\<lambda>p. plan_Id p \<noteq> vars_planId r) (plans w)
       \<and> list_all (\<lambda>p. plan_Id p \<noteq> vars_planId r) (plans (snd (DeletePlanHandler e r w)))
       \<and> length (plans (snd (DeletePlanHandler e r w))) < length (plans w)"
proof -
  obtain w1 where ex: "exec_delete_plan (vars_planId r) w = (Some n, w1)"
    using assms(4) by (cases "exec_delete_plan (vars_planId r) w") simp
  obtain w2 where fa: "fallible w1 = (False, w2)"
    using assms(6) ex by (cases "fallible w1") simp
  obtain w3 where dd: "DeletePlanDir (auth_OrgId auth) (vars_planId r) w2 = (True, w3)"
    using assms(7) ex fa by (cases "DeletePlanDir (auth_OrgId auth) (vars_planId r) w2") simp
  have h: "DeletePlanHandler e r w = (HttpError 500, w3)"
    using assms(1-3,5) ex fa dd
    by (simp add: DeletePlanHandler_def StatusInternalServerError_def)
  have pl: "plans w3 = filter (\<lambda>p. plan_Id p \<noteq> vars_planId r) (plans w)"
    using exec_delete_plan_frame(7) [OF ex] fallible_frame(1) [OF fa] DeletePlanDir_frame(1) [OF dd]
    by simp
  have "filter (\<lambda>p. plan_Id p = vars_planId r) (plans w) \<noteq> []"
    using exec_delete_plan_frame(7) [OF ex] assms(5) by auto
  then obtain p where "p \<in> set (plans w)" and "plan_Id p = vars_planId r"
    by (auto simp: filter_empty_conv)
  then have "length (filter (\<lambda>p. plan_Id p \<noteq> vars_planId r) (plans w)) < length (plans w)"
    by (intro length_filter_less [of p]) simp_all
  with pl show ?thesis
    by (simp add: h list_all_iff)
qed

theorem directory_failure_keeps_row_deleted_witness:
  "fst (DeletePlanHandler (sample_env []) (sample_request ''u1'' ''7'' ReadError)
       (sample_world [sample_plan ''7'' ''u1'' ''a'', sample_plan ''8'' ''u1'' ''b''] []
          [False, False, True])) = HttpError 500
   \<and> plans (snd (DeletePlanHandler (sample_env []) (sample_request ''u1'' ''7'' ReadError)
       (sample_world [sample_plan ''7'' ''u1'' ''a'', sample_plan ''8'' ''u1'' ''b''] []
          [False, False, True]))) = [sample_plan ''8'' ''u1'' ''b'']"
  using directory_failure_keeps_row_deleted [of "sample_request ''u1'' ''7'' ReadError"
      "sample_auth ''u1''" "sample_env []" "sample_plan ''7'' ''u1'' ''a''"
      "sample_world [sample_plan ''7'' ''u1'' ''a'', sample_plan ''8'' ''u1'' ''b''] []
          [False, False, True]" 1]
  by (simp add: sample_request_def sample_env_def sample_auth_def sample_plan_def
      sample_world_def exec_delete_plan_def DeletePlanDir_def store_call_def fallible_def)

subsection \<open>Listing\<close>

text \<open>
  Claim C9. For an authenticated and authorized request, the ordinary listing invokes
  \<^verbatim>\<open>ListOwnedPlans\<close> with the caller's user id and \<open>includeArchived = False\<close>, and
  the archived listing invokes it with the empty owner id and \<open>includeArchived = True\<close>.
  So the archived listing is not restricted to the caller's plans: its outcome is the
  same for every other authorized caller, and on success it writes the rows that the
  store selects for the empty owner id.
\<close>

theorem archived_listing_ignores_caller:
  assumes "authenticate r = Some auth" and "authorizeProject e (vars_projectId r) auth"
  shows "invoked w (snd (ListPlansHandler e r w))
           = [Call_ListOwnedPlans (vars_projectId r) (auth_User_Id auth) False []]
       \<and> invoked w (snd (ListArchivedPlansHandler e r w))
           = [Call_ListOwnedPlans (vars_projectId r) [] True []]
       \<and> (\<forall>auth'. authorizeProject e (vars_projectId r) auth' \<longrightarrow>
             ListArchivedPlansHandler e (r\<lparr>authenticate := Some auth'\<rparr>) w
               = ListArchivedPlansHandler e r w)
       \<and> (healthy w \<and> \<not> marshal_fails e \<longrightarrow>
             fst (ListPlansHandler e r w)
               = WritePlans (ListOwnedPlans_rows e (vars_projectId r) (auth_User_Id auth) False [] (plans w))
             \<and> fst (ListArchivedPlansHandler e r w)
               = WritePlans (ListOwnedPlans_rows e (vars_projectId r) [] True [] (plans w)))"
proof -
  obtain res1 w1 where l1:
    "ListOwnedPlans e (vars_projectId r) (auth_User_Id auth) False [] w = (res1, w1)"
    by (cases "ListOwnedPlans e (vars_projectId r) (auth_User_Id auth) False [] w")
  obtain res2 w2 where l2: "ListOwnedPlans e (vars_projectId r) [] True [] w = (res2, w2)"
    by (cases "ListOwnedPlans e (vars_projectId r) [] True [] w")
  have s1: "snd (ListPlansHandler e r w) = w1"
    using assms l1 by (simp add: ListPlansHandler_def split: option.splits)
  have s2: "snd (ListArchivedPlansHandler e r w) = w2"
    using assms l2 by (simp add: ListArchivedPlansHandler_def split: option.splits)
  have a: "invoked w (snd (ListPlansHandler e r w))
           = [Call_ListOwnedPlans (vars_projectId r) (auth_User_Id auth) False []]"
    using ListOwnedPlans_frame(5) [OF l1] by (simp add: s1)
  have b: "invoked w (snd (ListArchivedPlansHandler e r w))
           = [Call_ListOwnedPlans (vars_projectId r) [] True []]"
    using ListOwnedPlans_frame(5) [OF l2] by (simp add: s2)
  have c: "ListArchivedPlansHandler e (r\<lparr>authenticate := Some auth'\<rparr>) w
               = ListArchivedPlansHandler e r w"
    if "authorizeProject e (vars_projectId r) auth'" for auth'
    using assms that by (simp add: ListArchivedPlansHandler_def)
  have d: "fst (ListPlansHandler e r w)
               = WritePlans (ListOwnedPlans_rows e (vars_projectId r) (auth_User_Id auth) False [] (plans w))
             \<and> fst (ListArchivedPlansHandler e r w)
               = WritePlans (ListOwnedPlans_rows e (vars_projectId r) [] True [] (plans w))"
    if "healthy w" and "\<not> marshal_fails e"
    using assms that l1 l2 ListOwnedPlans_frame(6) [OF l1] ListOwnedPlans_frame(6) [OF l2]
    by (simp add: ListPlansHandler_def ListArchivedPlansHandler_def)
  from a b c d show ?thesis by blast
qed

theorem archived_listing_ignores_caller_witness:
  "fst (ListPlansHandler (sample_env []) (sample_request ''u1'' [] ReadError)
          (sample_world [sample_plan ''7'' ''u1'' ''a'', sample_plan ''8'' ''u2'' ''b''] [] []))
     = WritePlans [sample_plan ''7'' ''u1'' ''a'']
   \<and> fst (ListArchivedPlansHandler (sample_env []) (sample_request ''u1'' [] ReadError)
          (sample_world [sample_plan ''7'' ''u1'' ''a'', sample_plan ''8'' ''u2'' ''b''] [] []))
     = WritePlans [sample_plan ''7'' ''u1'' ''a'', sample_plan ''8'' ''u2'' ''b'']
   \<and> invoked (sample_world [sample_plan ''7'' ''u1'' ''a'', sample_plan ''8'' ''u2'' ''b''] [] [])
        (snd (ListArchivedPlansHandler (sample_env []) (sample_request ''u1'' [] ReadError)
          (sample_world [sample_plan ''7'' ''u1'' ''a'', sample_plan ''8'' ''u2'' ''b''] [] [])))
     = [Call_ListOwnedPlans ''proj1'' [] True []]
   \<and> invoked (sample_world [sample_plan ''7'' ''u1'' ''a'', sample_plan ''8'' ''u2'' ''b''] [] [])
        (snd (ListPlansHandler (sample_env []) (sample_request ''u1'' [] ReadError)
          (sample_world [sample_plan ''7'' ''u1'' ''a'', sample_plan ''8'' ''u2'' ''b''] [] [])))
     = [Call_ListOwnedPlans ''proj1'' ''u1'' False []]"
proof -
  let ?w = "sample_world [sample_plan ''7'' ''u1'' ''a'', sample_plan ''8'' ''u2'' ''b''] [] []"
  let ?r = "sample_request ''u1'' [] ReadError"
  let ?e = "sample_env []"
  have pre: "authenticate ?r = Some (sample_auth ''u1'')" "authorizeProject ?e (vars_projectId ?r) (sample_auth ''u1'')"
    "healthy ?w" "\<not> marshal_fails ?e"
    by (simp_all add: sample_request_def sample_env_def sample_world_def healthy_def)
  note inst = archived_listing_ignores_caller [of ?r "sample_auth ''u1''" ?e ?w, OF pre(1,2)]
  have c1: "fst (ListPlansHandler ?e ?r ?w) = WritePlans [sample_plan ''7'' ''u1'' ''a'']"
    using inst pre(3,4)
    by (simp add: sample_request_def sample_env_def sample_world_def sample_plan_def sample_auth_def)
  have c2: "fst (ListArchivedPlansHandler ?e ?r ?w)
      = WritePlans [sample_plan ''7'' ''u1'' ''a'', sample_plan ''8'' ''u2'' ''b'']"
    using inst pre(3,4)
    by (simp add: sample_request_def sample_env_def sample_world_def sample_plan_def sample_auth_def)
  have c3: "invoked ?w (snd (ListArchivedPlansHandler ?e ?r ?w)) = [Call_ListOwnedPlans ''proj1'' [] True []]"
    using inst by (simp add: sample_request_def)
  have c4: "invoked ?w (snd (ListPlansHandler ?e ?r ?w)) = [Call_ListOwnedPlans ''proj1'' ''u1'' False []]"
    using inst by (simp add: sample_request_def sample_auth_def)
  from c1 c2 c3 c4 show ?thesis by blast
qed

subsection \<open>Bulk deletion\<close>

lemma DeleteAllPlansHandler_cases:
  "DeleteAllPlansHandler e r w = (HelperResponse, w)
   \<or> (\<exists>auth failed w'. authenticate r = Some auth
        \<and> DeleteOwnerPlans (auth_OrgId auth) (vars_projectId r) (auth_User_Id auth) w = (failed, w')
        \<and> DeleteAllPlansHandler e r w
            = (if failed then HttpError StatusInternalServerError else NoBody, w'))"
proof (cases "authenticate r")
  case None
  then show ?thesis by (simp add: DeleteAllPlansHandler_def)
next
  case (Some auth)
  obtain failed w' where d:
    "DeleteOwnerPlans (auth_OrgId auth) (vars_projectId r) (auth_User_Id auth) w = (failed, w')"
    by (cases "DeleteOwnerPlans (auth_OrgId auth) (vars_projectId r) (auth_User_Id auth) w")
  show ?thesis
  proof (cases "authorizeProject e (vars_projectId r) auth")
    case False
    with Some show ?thesis by (simp add: DeleteAllPlansHandler_def)
  next
    case True
    with Some d have "DeleteAllPlansHandler e r w
        = (if failed then HttpError StatusInternalServerError else NoBody, w')"
      by (simp add: DeleteAllPlansHandler_def)
    with Some d show ?thesis by blast
  qed
qed

lemma DeleteAllPlansHandler_invoked:
  "invoked w (snd (DeleteAllPlansHandler e r w)) = []
   \<or> (\<exists>orgId projectId userId.
        invoked w (snd (DeleteAllPlansHandler e r w)) = [Call_DeleteOwnerPlans orgId projectId userId])"
  using DeleteAllPlansHandler_cases [of e r w]
proof (elim disjE exE conjE)
  assume "DeleteAllPlansHandler e r w = (HelperResponse, w)"
  then show ?thesis by simp
next
  fix auth failed w'
  assume d: "DeleteOwnerPlans (auth_OrgId auth) (vars_projectId r) (auth_User_Id auth) w = (failed, w')"
    and h: "DeleteAllPlansHandler e r w
            = (if failed then HttpError StatusInternalServerError else NoBody, w')"
  show ?thesis
    using DeleteOwnerPlans_frame(3) [OF d] by (simp add: h)
qed

lemma DeletePlanHandler_success:
  assumes "authenticate r = Some auth" and "fst (DeletePlanHandler e r w) = NoBody"
  shows "invoked w (snd (DeletePlanHandler e r w))
           = [Call_DeletePlanRow (vars_planId r), Call_DeletePlanDir (auth_OrgId auth) (vars_planId r)]
       \<and> plan_dirs (snd (DeletePlanHandler e r w))
           = filter (\<lambda>d. d \<noteq> (auth_OrgId auth, vars_planId r)) (plan_dirs w)"
proof -
  obtain plan where ap: "authorizePlanDelete e (vars_planId r) auth = Some plan"
    using assms by (cases "authorizePlanDelete e (vars_planId r) auth")
      (simp_all add: DeletePlanHandler_def)
  have own: "plan_OwnerId plan = auth_User_Id auth"
    using assms ap by (auto simp: DeletePlanHandler_def split: if_splits)
  obtain res w1 where ex: "exec_delete_plan (vars_planId r) w = (res, w1)"
    by (cases "exec_delete_plan (vars_planId r) w")
  obtain f2 w2 where fa: "fallible w1 = (f2, w2)" by (cases "fallible w1")
  obtain f3 w3 where dd: "DeletePlanDir (auth_OrgId auth) (vars_planId r) w2 = (f3, w3)"
    by (cases "DeletePlanDir (auth_OrgId auth) (vars_planId r) w2")
  from assms ap own ex fa dd have ok: "res \<noteq> None" "\<not> f2" "\<not> f3"
    and h: "snd (DeletePlanHandler e r w) = w3"
    by (auto simp: DeletePlanHandler_def split: option.splits if_splits)
  have c: "calls w3 = calls w @ [Call_DeletePlanRow (vars_planId r),
                                   Call_DeletePlanDir (auth_OrgId auth) (vars_planId r)]"
    using exec_delete_plan_frame(4) [OF ex] fallible_frame(5) [OF fa] DeletePlanDir_frame(4) [OF dd]
    by simp
  have d: "plan_dirs w3 = filter (\<lambda>d. d \<noteq> (auth_OrgId auth, vars_planId r)) (plan_dirs w)"
    using exec_delete_plan_frame(2) [OF ex] fallible_frame(3) [OF fa]
      DeletePlanDir_frame(7) [OF dd] ok(3) by simp
  show ?thesis using c d by (simp add: h)
qed

lemma DeleteAllPlansHandler_dirs:
  "(fst (DeleteAllPlansHandler e r w) \<noteq> NoBody \<longrightarrow>
      plan_dirs (snd (DeleteAllPlansHandler e r w)) = plan_dirs w)
   \<and> (\<forall>auth. authenticate r = Some auth \<and> fst (DeleteAllPlansHandler e r w) = NoBody \<longrightarrow>
        plan_dirs (snd (DeleteAllPlansHandler e r w))
          = filter (\<lambda>d. d \<notin> set (owned_dirs (auth_OrgId auth) (vars_projectId r) (auth_User_Id auth) w))
              (plan_dirs w))"
  using DeleteAllPlansHandler_cases [of e r w]
proof (elim disjE exE conjE)
  assume "DeleteAllPlansHandler e r w = (HelperResponse, w)"
  then show ?thesis by simp
next
  fix auth failed w'
  assume a: "authenticate r = Some auth"
    and d: "DeleteOwnerPlans (auth_OrgId auth) (vars_projectId r) (auth_User_Id auth) w = (failed, w')"
    and h: "DeleteAllPlansHandler e r w
            = (if failed then HttpError StatusInternalServerError else NoBody, w')"
  show ?thesis
    using DeleteOwnerPlans_frame(5,7) [OF d] a
    by (cases failed) (simp_all add: h owned_dirs_def StatusInternalServerError_def)
qed

text \<open>
  Claim C10, as stated, fails on the model: the claim concludes that bulk deletion leaves
  the plan directories untouched, but \<^verbatim>\<open>DeleteOwnerPlans\<close>, which by the spec also
  deletes the directory of every plan it deletes, removes them. Here the caller owns
  two plans; the handler invokes \<^verbatim>\<open>DeleteOwnerPlans\<close> only, and both directories are
  gone afterwards.
\<close>

theorem bulk_delete_leaves_directories_counterexample:
  "plan_dirs (sample_world [sample_plan ''7'' ''u1'' ''a'', sample_plan ''8'' ''u1'' ''b''] [] [])
     = [(''org1'', ''7''), (''org1'', ''8'')]
   \<and> plan_dirs (snd (DeleteAllPlansHandler (sample_env []) (sample_request ''u1'' ''7'' ReadError)
         (sample_world [sample_plan ''7'' ''u1'' ''a'', sample_plan ''8'' ''u1'' ''b''] [] []))) = []
   \<and> plan_dirs (snd (DeleteAllPlansHandler (sample_env []) (sample_request ''u1'' ''7'' ReadError)
         (sample_world [sample_plan ''7'' ''u1'' ''a'', sample_plan ''8'' ''u1'' ''b''] [] [])))
     \<noteq> plan_dirs (sample_world [sample_plan ''7'' ''u1'' ''a'', sample_plan ''8'' ''u1'' ''b''] [] [])
   \<and> calls (snd (DeleteAllPlansHandler (sample_env []) (sample_request ''u1'' ''7'' ReadError)
         (sample_world [sample_plan ''7'' ''u1'' ''a'', sample_plan ''8'' ''u1'' ''b''] [] [])))
     = [Call_DeleteOwnerPlans ''org1'' ''proj1'' ''u1'']"
  by (simp add: DeleteAllPlansHandler_def sample_request_def sample_env_def sample_auth_def
      sample_plan_def sample_world_def DeleteOwnerPlans_def store_call_def fallible_def
      del: set_filter set_map)

text \<open>
  Claim C10, amended. For every request, the bulk deletion handler invokes no store
  operation at all or the one operation \<^verbatim>\<open>DeleteOwnerPlans\<close>; it never invokes
  \<^verbatim>\<open>DeletePlanDir\<close> itself. What happens to the plan directories is decided inside
  \<^verbatim>\<open>DeleteOwnerPlans\<close>: when the handler succeeds, the directories of the rows deleted
  for the caller's (organisation, project, owner) scope are gone and all others are
  kept, and when it does not succeed the directories are as before. The single-plan
  deletion, in contrast, invokes the row deletion and then \<^verbatim>\<open>DeletePlanDir\<close> itself
  when it succeeds, and the directory of the plan is gone.
\<close>

theorem bulk_delete_invokes_no_directory_deletion:
  "(\<forall>orgId planId. Call_DeletePlanDir orgId planId
        \<notin> set (invoked w (snd (DeleteAllPlansHandler e r w))))
   \<and> (invoked w (snd (DeleteAllPlansHandler e r w)) = []
       \<or> (\<exists>orgId projectId userId.
             invoked w (snd (DeleteAllPlansHandler e r w))
               = [Call_DeleteOwnerPlans orgId projectId userId]))
   \<and> (fst (DeleteAllPlansHandler e r w) \<noteq> NoBody \<longrightarrow>
         plan_dirs (snd (DeleteAllPlansHandler e r w)) = plan_dirs w)
   \<and> (\<forall>auth. authenticate r = Some auth \<and> fst (DeleteAllPlansHandler e r w) = NoBody \<longrightarrow>
         plan_dirs (snd (DeleteAllPlansHandler e r w))
           = filter (\<lambda>d. d \<notin> set (owned_dirs (auth_OrgId auth) (vars_projectId r) (auth_User_Id auth) w))
               (plan_dirs w))
   \<and> (\<forall>auth. authenticate r = Some auth \<and> fst (DeletePlanHandler e r w) = NoBody \<longrightarrow>
         invoked w (snd (DeletePlanHandler e r w))
           = [Call_DeletePlanRow (vars_planId r), Call_DeletePlanDir (auth_OrgId auth) (vars_planId r)]
         \<and> plan_dirs (snd (DeletePlanHandler e r w))
           = filter (\<lambda>d. d \<noteq> (auth_OrgId auth, vars_planId r)) (plan_dirs w))"
proof -
  have a: "\<forall>orgId planId. Call_DeletePlanDir orgId planId
        \<notin> set (invoked w (snd (DeleteAllPlansHandler e r w)))"
    using DeleteAllPlansHandler_invoked [of w e r] by auto
  have b: "\<forall>auth. authenticate r = Some auth \<and> fst (DeletePlanHandler e r w) = NoBody \<longrightarrow>
         invoked w (snd (DeletePlanHandler e r w))
           = [Call_DeletePlanRow (vars_planId r), Call_DeletePlanDir (auth_OrgId auth) (vars_planId r)]
         \<and> plan_dirs (snd (DeletePlanHandler e r w))
           = filter (\<lambda>d. d \<noteq> (auth_OrgId auth, vars_planId r)) (plan_dirs w)"
    using DeletePlanHandler_success [of r _ e w] by blast
  from a DeleteAllPlansHandler_invoked [of w e r] DeleteAllPlansHandler_dirs [of e r w] b
  show ?thesis by (intro conjI) blast+
qed

theorem bulk_delete_invokes_no_directory_deletion_witness:
  "fst (DeleteAllPlansHandler (sample_env []) (sample_request ''u1'' ''7'' ReadError)
         (sample_world [sample_plan ''7'' ''u1'' ''a'', sample_plan ''8'' ''u2'' ''b''] [] [])) = NoBody
   \<and> plan_dirs (snd (DeleteAllPlansHandler (sample_env []) (sample_request ''u1'' ''7'' ReadError)
         (sample_world [sample_plan ''7'' ''u1'' ''a'', sample_plan ''8'' ''u2'' ''b''] [] [])))
     = [(''org1'', ''8'')]
   \<and> fst (DeletePlanHandler (sample_env []) (sample_request ''u1'' ''7'' ReadError)
         (sample_world [sample_plan ''7'' ''u1'' ''a'', sample_plan ''8'' ''u2'' ''b''] [] [])) = NoBody
   \<and> invoked (sample_world [sample_plan ''7'' ''u1'' ''a'', sample_plan ''8'' ''u2'' ''b''] [] [])
      (snd (DeletePlanHandler (sample_env []) (sample_request ''u1'' ''7'' ReadError)
         (sample_world [sample_plan ''7'' ''u1'' ''a'', sample_plan ''8'' ''u2'' ''b''] [] [])))
     = [Call_DeletePlanRow ''7'', Call_DeletePlanDir ''org1'' ''7'']
   \<and> plan_dirs (snd (DeletePlanHandler (sample_env []) (sample_request ''u1'' ''7'' ReadError)
         (sample_world [sample_plan ''7'' ''u1'' ''a'', sample_plan ''8'' ''u2'' ''b''] [] [])))
     = [(''org1'', ''8'')]"
proof -
  let ?w = "sample_world [sample_plan ''7'' ''u1'' ''a'', sample_plan ''8'' ''u2'' ''b''] [] []"
  let ?r = "sample_request ''u1'' ''7'' ReadError"
  let ?e = "sample_env []"
  have au: "authenticate ?r = Some (sample_auth ''u1'')" by (simp add: sample_request_def)
  have ok1: "fst (DeleteAllPlansHandler ?e ?r ?w) = NoBody"
    by (simp add: DeleteAllPlansHandler_def sample_request_def sample_env_def sample_auth_def
        sample_plan_def sample_world_def DeleteOwnerPlans_def store_call_def fallible_def)
  have ok2: "fst (DeletePlanHandler ?e ?r ?w) = NoBody"
    by (simp add: DeletePlanHandler_def sample_request_def sample_env_def sample_auth_def
        sample_plan_def sample_world_def exec_delete_plan_def DeletePlanDir_def store_call_def
        fallible_def)
  note inst = bulk_delete_invokes_no_directory_deletion [of ?w ?e ?r]
  have d1: "plan_dirs (snd (DeleteAllPlansHandler ?e ?r ?w))
      = filter (\<lambda>d. d \<notin> set (owned_dirs (auth_OrgId (sample_auth ''u1'')) (vars_projectId ?r)
                                 (auth_User_Id (sample_auth ''u1'')) ?w)) (plan_dirs ?w)"
    using inst au ok1 by blast
  have d2: "invoked ?w (snd (DeletePlanHandler ?e ?r ?w))
           = [Call_DeletePlanRow (vars_planId ?r),
              Call_DeletePlanDir (auth_OrgId (sample_auth ''u1'')) (vars_planId ?r)]"
    and d3: "plan_dirs (snd (DeletePlanHandler ?e ?r ?w))
           = filter (\<lambda>d. d \<noteq> (auth_OrgId (sample_auth ''u1''), vars_planId ?r)) (plan_dirs ?w)"
    using inst au ok2 by blast+
  have c1: "plan_dirs (snd (DeleteAllPlansHandler ?e ?r ?w)) = [(''org1'', ''8'')]"
    unfolding d1
    by (simp add: owned_dirs_def sample_request_def sample_auth_def sample_world_def sample_plan_def
        del: set_filter set_map)
  have c2: "invoked ?w (snd (DeletePlanHandler ?e ?r ?w))
      = [Call_DeletePlanRow ''7'', Call_DeletePlanDir ''org1'' ''7'']"
    unfolding d2 by (simp add: sample_request_def sample_auth_def)
  have c3: "plan_dirs (snd (DeletePlanHandler ?e ?r ?w)) = [(''org1'', ''8'')]"
    unfolding d3 by (simp add: sample_request_def sample_auth_def sample_world_def sample_plan_def)
  from ok1 c1 ok2 c2 c3 show ?thesis by blast
qed

subsection \<open>Plan creation\<close>

lemma create_and_respond_healthy:
  assumes "healthy w" and "\<not> marshal_fails e"
  shows "\<exists>w'. create_and_respond e auth projectId name w
           = (WriteCreatePlanResponse \<lparr>resp_Id = decimal (next_id w), resp_Name = name\<rparr>, w')
       \<and> plans w'
           = plans w @ [\<lparr>plan_Id = decimal (next_id w), plan_OrgId = auth_OrgId auth,
                         plan_OwnerId = auth_User_Id auth, plan_ProjectId = projectId,
                         plan_Name = name\<rparr>]
       \<and> calls w'
           = calls w @ [Call_CreatePlan (auth_OrgId auth) projectId (auth_User_Id auth) name]"
proof -
  obtain res w' where c: "CreatePlan (auth_OrgId auth) projectId (auth_User_Id auth) name w = (res, w')"
    by (cases "CreatePlan (auth_OrgId auth) projectId (auth_User_Id auth) name w")
  from CreatePlan_frame(4) [OF c] assms(1) obtain plan where p: "res = Some plan" by auto
  show ?thesis
    using CreatePlan_frame(3) [OF c] CreatePlan_frame(6) [OF c p] assms(2)
    by (intro exI [of _ w']) (simp add: create_and_respond_def c p)
qed

text \<open>
  Claim C1. Take a creation request that passes authentication, permission, project
  authorization and the quota gate, whose requested name \<open>N\<close> is neither empty nor
  \<^verbatim>\<open>"draft"\<close>, let no store operation fail, and let the table have fewer than
  \<open>2^63 - 1\<close> rows (so that the 64-bit counter of the loop stays in range). If the
  (project id, owner id) scope has rows named \<open>N\<close>, \<open>N.2\<close>, ..., \<open>N.k\<close> and none named
  \<open>N.(k+1)\<close>, the naming loop returns \<open>N.(k+1)\<close>, and the handler returns with a response
  and a new row that bear that name. For \<open>k = 0\<close> this reads: if no row of the scope is
  named \<open>N\<close>, the created plan is named \<open>N\<close>.
\<close>

theorem non_draft_name_resolution:
  assumes "authenticate r = Some auth"
    and "HasPermission auth PermissionCreatePlan"
    and "authorizeProject e (vars_projectId r) auth"
    and "trial_quota_gate e auth w = (None, w1)"
    and "body r = Parsed N" and "N \<noteq> []" and "N \<noteq> ''draft''"
    and "healthy w" and "\<not> marshal_fails e"
    and "length (plans w) < 2 ^ 63 - 1"
    and "\<forall>j. 1 \<le> j \<and> j \<le> k \<longrightarrow>
           candidate N j \<in> scope_names (vars_projectId r) (auth_User_Id auth) w"
    and "candidate N (Suc k) \<notin> scope_names (vars_projectId r) (auth_User_Id auth) w"
  shows "(\<exists>w2. name_loop (vars_projectId r) (auth_User_Id auth) N N 2 w1
            = Some (Inr (if k = 0 then N else N @ ''.'' @ Sprint (int k + 1)), w2))
       \<and> (\<exists>w'. CreatePlanHandler e r w
            = Some (WriteCreatePlanResponse \<lparr>resp_Id = decimal (next_id w),
                 resp_Name = (if k = 0 then N else N @ ''.'' @ Sprint (int k + 1))\<rparr>, w')
          \<and> plans w'
              = plans w @ [\<lparr>plan_Id = decimal (next_id w), plan_OrgId = auth_OrgId auth,
                            plan_OwnerId = auth_User_Id auth, plan_ProjectId = vars_projectId r,
                            plan_Name = (if k = 0 then N else N @ ''.'' @ Sprint (int k + 1))\<rparr>])"
proof -
  let ?p = "vars_projectId r" and ?u = "auth_User_Id auth"
  let ?name = "if k = 0 then N else N @ ''.'' @ Sprint (int k + 1)"
  note g = trial_quota_gate_frame [OF assms(4)]
  have same: "scope_names ?p ?u w1 = scope_names ?p ?u w"
    using g(1) by (rule scope_names_cong)
  have h1: "healthy w1" using g(5) assms(8) by simp
  have cn: "candidate N (Suc k) = ?name"
    by (simp add: candidate_def add.commute)
  have c1: "candidate N 1 = N" "(word_of_nat (Suc 1) :: 64 word) = 2" by (simp_all add: candidate_def)
  have "Suc k \<le> length (plans w) + 1"
    using assms(11) by (intro taken_prefix_bound [of _ N ?p ?u]) simp
  then have small: "Suc k < 2 ^ 63" using assms(10) by simp
  have "\<exists>w'. name_loop ?p ?u N (candidate N 1) (word_of_nat (Suc 1)) w1
           = Some (Inr (candidate N (Suc k)), w')
       \<and> calls w' = calls w1 @ map (\<lambda>j. Call_CountPlans ?p ?u (candidate N j)) [1..<Suc (Suc k)]
       \<and> plans w' = plans w1 \<and> users w' = users w1 \<and> plan_dirs w' = plan_dirs w1
       \<and> next_id w' = next_id w1 \<and> healthy w'"
  proof (rule name_loop_finds [OF h1 _ _ small])
    show "1 \<le> (1::nat)" by simp
    show "1 \<le> Suc k" by simp
    show "\<forall>j. 1 \<le> j \<and> j < Suc k \<longrightarrow> candidate N j \<in> scope_names ?p ?u w1"
      using assms(11) same by simp
    show "candidate N (Suc k) \<notin> scope_names ?p ?u w1"
      using assms(12) same by simp
  qed
  then obtain w2 where nl: "name_loop ?p ?u N N 2 w1 = Some (Inr ?name, w2)"
    and lp: "plans w2 = plans w1" and ln: "next_id w2 = next_id w1" and lh: "healthy w2"
    unfolding c1 cn by blast
  have rn: "resolve_name auth ?p N w1 = Some (Inr ?name, w2)"
    using assms(6,7) nl by (simp add: resolve_name_def)
  have h: "CreatePlanHandler e r w = Some (create_and_respond e auth ?p ?name w2)"
    using assms(1-5) rn by (simp add: CreatePlanHandler_def)
  from create_and_respond_healthy [OF lh assms(9), of auth ?p ?name]
  obtain w' where cr: "create_and_respond e auth ?p ?name w2
           = (WriteCreatePlanResponse \<lparr>resp_Id = decimal (next_id w2), resp_Name = ?name\<rparr>, w')"
    and pw: "plans w' = plans w2 @ [\<lparr>plan_Id = decimal (next_id w2), plan_OrgId = auth_OrgId auth,
                         plan_OwnerId = ?u, plan_ProjectId = ?p, plan_Name = ?name\<rparr>]"
    by blast
  have n2: "next_id w2 = next_id w" using ln g(4) by simp
  have p2: "plans w2 = plans w" using lp g(1) by simp
  have "CreatePlanHandler e r w
      = Some (WriteCreatePlanResponse \<lparr>resp_Id = decimal (next_id w), resp_Name = ?name\<rparr>, w')"
    unfolding h cr n2 ..
  moreover have "plans w' = plans w @ [\<lparr>plan_Id = decimal (next_id w), plan_OrgId = auth_OrgId auth,
                         plan_OwnerId = ?u, plan_ProjectId = ?p, plan_Name = ?name\<rparr>]"
    unfolding pw n2 p2 ..
  ultimately show ?thesis using nl by blast
qed

theorem non_draft_name_resolution_witness:
  "map_option fst (CreatePlanHandler (sample_env []) (sample_request ''u1'' [] (Parsed ''a''))
          (sample_world [sample_plan ''7'' ''u1'' ''a'', sample_plan ''8'' ''u1'' ''a.2''] [] []))
     = Some (WriteCreatePlanResponse \<lparr>resp_Id = ''100'', resp_Name = ''a.3''\<rparr>)
   \<and> map_option fst (CreatePlanHandler (sample_env []) (sample_request ''u1'' [] (Parsed ''b''))
          (sample_world [sample_plan ''7'' ''u1'' ''a'', sample_plan ''8'' ''u1'' ''a.2''] [] []))
     = Some (WriteCreatePlanResponse \<lparr>resp_Id = ''100'', resp_Name = ''b''\<rparr>)
   \<and> map_option (\<lambda>y. plans (snd y))
        (CreatePlanHandler (sample_env []) (sample_request ''u1'' [] (Parsed ''a''))
          (sample_world [sample_plan ''7'' ''u1'' ''a'', sample_plan ''8'' ''u1'' ''a.2''] [] []))
     = Some [sample_plan ''7'' ''u1'' ''a'', sample_plan ''8'' ''u1'' ''a.2'',
             sample_plan ''100'' ''u1'' ''a.3'']"
proof -
  let ?w = "sample_world [sample_plan ''7'' ''u1'' ''a'', sample_plan ''8'' ''u1'' ''a.2''] [] []"
  let ?e = "sample_env []"
  let ?ra = "sample_request ''u1'' [] (Parsed ''a'')"
  let ?rb = "sample_request ''u1'' [] (Parsed ''b'')"
  let ?auth = "sample_auth ''u1''"
  have names: "scope_names ''proj1'' ''u1'' ?w = {''a'', ''a.2''}"
    by (simp add: scope_names_list sample_world_def sample_plan_def)
  have c1: "\<And>N. candidate N (Suc 0) = N" by (simp add: candidate_def)
  have c2: "candidate ''a'' 2 = ''a.2''"
    by (simp add: candidate_def Sprint_def decimal.simps digit_char_def)
  have c3: "candidate ''a'' (Suc 2) = ''a.3''"
    by (simp add: candidate_def Sprint_def decimal.simps digit_char_def)
  have d100: "decimal 100 = ''100''"
    by (simp add: decimal.simps digit_char_def)
  have gate: "trial_quota_gate ?e ?auth ?w = (None, ?w)"
    by (simp add: trial_quota_gate_def sample_env_def)
  have pre: "authenticate ?ra = Some ?auth" "authenticate ?rb = Some ?auth"
    "HasPermission ?auth PermissionCreatePlan"
    "authorizeProject ?e (vars_projectId ?ra) ?auth" "authorizeProject ?e (vars_projectId ?rb) ?auth"
    "body ?ra = Parsed ''a''" "body ?rb = Parsed ''b''" "healthy ?w" "\<not> marshal_fails ?e"
    "vars_projectId ?ra = ''proj1''" "vars_projectId ?rb = ''proj1''" "auth_User_Id ?auth = ''u1''"
    "auth_OrgId ?auth = ''org1''" "next_id ?w = 100"
    "plans ?w = [sample_plan ''7'' ''u1'' ''a'', sample_plan ''8'' ''u1'' ''a.2'']"
    by (simp_all add: sample_request_def sample_auth_def sample_env_def sample_world_def
        HasPermission_def healthy_def)
  have size: "length (plans ?w) < 2 ^ 63 - 1" by (simp add: pre)
  have taken: "\<forall>j. 1 \<le> j \<and> j \<le> 2 \<longrightarrow>
      candidate ''a'' j \<in> scope_names (vars_projectId ?ra) (auth_User_Id ?auth) ?w"
  proof (intro allI impI)
    fix j :: nat assume "1 \<le> j \<and> j \<le> 2"
    then have "j = Suc 0 \<or> j = 2" by arith
    then show "candidate ''a'' j \<in> scope_names (vars_projectId ?ra) (auth_User_Id ?auth) ?w"
      unfolding pre names using c1 c2 by auto
  qed
  have free: "candidate ''a'' (Suc 2) \<notin> scope_names (vars_projectId ?ra) (auth_User_Id ?auth) ?w"
    unfolding pre names c3 by simp
  have freeb: "candidate ''b'' (Suc 0) \<notin> scope_names (vars_projectId ?rb) (auth_User_Id ?auth) ?w"
    unfolding pre names c1 by simp
  have takenb: "\<forall>j. 1 \<le> j \<and> j \<le> 0 \<longrightarrow>
      candidate ''b'' j \<in> scope_names (vars_projectId ?rb) (auth_User_Id ?auth) ?w"
    by simp
  have na: "''a'' \<noteq> []" "''a'' \<noteq> ''draft''" "''b'' \<noteq> []" "''b'' \<noteq> ''draft''" by simp_all
  from non_draft_name_resolution [OF pre(1) pre(3) pre(4) gate pre(6) na(1,2) pre(8) pre(9) size
      taken free]
  obtain wa where a: "CreatePlanHandler ?e ?ra ?w
      = Some (WriteCreatePlanResponse \<lparr>resp_Id = decimal (next_id ?w),
                 resp_Name = (if (2::nat) = 0 then ''a'' else ''a'' @ ''.'' @ Sprint (int 2 + 1))\<rparr>, wa)"
    and pa: "plans wa = plans ?w @ [\<lparr>plan_Id = decimal (next_id ?w), plan_OrgId = auth_OrgId ?auth,
                            plan_OwnerId = auth_User_Id ?auth, plan_ProjectId = vars_projectId ?ra,
                            plan_Name = (if (2::nat) = 0 then ''a'' else ''a'' @ ''.'' @ Sprint (int 2 + 1))\<rparr>]"
    by blast
  from non_draft_name_resolution [OF pre(2) pre(3) pre(5) gate pre(7) na(3,4) pre(8) pre(9) size
      takenb freeb]
  obtain wb where b: "CreatePlanHandler ?e ?rb ?w
      = Some (WriteCreatePlanResponse \<lparr>resp_Id = decimal (next_id ?w),
                 resp_Name = (if (0::nat) = 0 then ''b'' else ''b'' @ ''.'' @ Sprint (int 0 + 1))\<rparr>, wb)"
    by blast
  have sp: "Sprint (int 2 + 1) = ''3''"
    by (simp add: Sprint_def decimal.simps digit_char_def)
  have pa': "plans wa = [sample_plan ''7'' ''u1'' ''a'', sample_plan ''8'' ''u1'' ''a.2'',
             sample_plan ''100'' ''u1'' ''a.3'']"
    unfolding pa pre d100 sp by (simp add: sample_plan_def)
  show ?thesis
    unfolding a b pre d100 sp by (simp add: pa')
qed

text \<open>
  Claim C2. Take a creation request that passes authentication, permission, project
  authorization and the quota gate, whose requested name is empty or \<^verbatim>\<open>"draft"\<close>,
  and let no store operation fail. After the gate the handler invokes
  \<^verbatim>\<open>DeleteDraftPlans\<close> for (org id, project id, owner id) and then \<^verbatim>\<open>CreatePlan\<close>
  with the name \<^verbatim>\<open>"draft"\<close>, and nothing else: the existence query of the naming
  loop is never issued. The handler returns, the response names the plan
  \<^verbatim>\<open>"draft"\<close>, and the table afterwards is the old table without the draft rows of
  that scope, followed by the new row named \<^verbatim>\<open>"draft"\<close>.
\<close>

theorem draft_request_replaces_drafts:
  assumes "authenticate r = Some auth"
    and "HasPermission auth PermissionCreatePlan"
    and "authorizeProject e (vars_projectId r) auth"
    and "trial_quota_gate e auth w = (None, w1)"
    and "body r = Parsed N" and "N = [] \<or> N = ''draft''"
    and "healthy w" and "\<not> marshal_fails e"
  shows "\<exists>w'. CreatePlanHandler e r w
           = Some (WriteCreatePlanResponse \<lparr>resp_Id = decimal (next_id w), resp_Name = ''draft''\<rparr>, w')
       \<and> invoked w1 w'
           = [Call_DeleteDraftPlans (auth_OrgId auth) (vars_projectId r) (auth_User_Id auth),
              Call_CreatePlan (auth_OrgId auth) (vars_projectId r) (auth_User_Id auth) ''draft'']
       \<and> plans w'
           = filter (\<lambda>p. \<not> scope_draft (auth_OrgId auth) (vars_projectId r) (auth_User_Id auth) p)
               (plans w)
             @ [\<lparr>plan_Id = decimal (next_id w), plan_OrgId = auth_OrgId auth,
                 plan_OwnerId = auth_User_Id auth, plan_ProjectId = vars_projectId r,
                 plan_Name = ''draft''\<rparr>]"
proof -
  let ?p = "vars_projectId r" and ?u = "auth_User_Id auth" and ?o = "auth_OrgId auth"
  note g = trial_quota_gate_frame [OF assms(4)]
  have h1: "healthy w1" using g(5) assms(7) by simp
  obtain failed w2 where dd: "DeleteDraftPlans ?o ?p ?u w1 = (failed, w2)"
    by (cases "DeleteDraftPlans ?o ?p ?u w1")
  note d = DeleteDraftPlans_frame [OF dd]
  have nf: "\<not> failed" and h2: "healthy w2" using d(5) h1 by simp_all
  have rn: "resolve_name auth ?p N w1 = Some (Inr ''draft'', w2)"
    using assms(6) dd nf by (auto simp: resolve_name_def)
  have h: "CreatePlanHandler e r w = Some (create_and_respond e auth ?p ''draft'' w2)"
    using assms(1-5) rn by (simp add: CreatePlanHandler_def)
  have p2: "plans w2 = filter (\<lambda>p. \<not> scope_draft ?o ?p ?u p) (plans w)"
    using d(7) nf g(1) by simp
  have n2: "next_id w2 = next_id w" using d(3) g(4) by simp
  from create_and_respond_healthy [OF h2 assms(8), of auth ?p "''draft''"]
  obtain w' where cr: "create_and_respond e auth ?p ''draft'' w2
           = (WriteCreatePlanResponse \<lparr>resp_Id = decimal (next_id w2), resp_Name = ''draft''\<rparr>, w')"
    and pw: "plans w' = plans w2 @ [\<lparr>plan_Id = decimal (next_id w2), plan_OrgId = ?o,
                         plan_OwnerId = ?u, plan_ProjectId = ?p, plan_Name = ''draft''\<rparr>]"
    and cw: "calls w' = calls w2 @ [Call_CreatePlan ?o ?p ?u ''draft'']"
    by blast
  have cs: "calls w' = calls w1 @ [Call_DeleteDraftPlans ?o ?p ?u, Call_CreatePlan ?o ?p ?u ''draft'']"
    unfolding cw d(4) by simp
  have "CreatePlanHandler e r w
      = Some (WriteCreatePlanResponse \<lparr>resp_Id = decimal (next_id w), resp_Name = ''draft''\<rparr>, w')"
    unfolding h cr n2 ..
  moreover have "plans w' = filter (\<lambda>p. \<not> scope_draft ?o ?p ?u p) (plans w)
             @ [\<lparr>plan_Id = decimal (next_id w), plan_OrgId = ?o,
                 plan_OwnerId = ?u, plan_ProjectId = ?p, plan_Name = ''draft''\<rparr>]"
    unfolding pw n2 p2 ..
  ultimately show ?thesis using invoked_append [OF cs] by blast
qed

theorem draft_request_replaces_drafts_witness:
  "map_option fst (CreatePlanHandler (sample_env []) (sample_request ''u1'' [] (Parsed []))
          (sample_world [sample_plan ''7'' ''u1'' ''draft'', sample_plan ''8'' ''u1'' ''a'',
                         sample_plan ''9'' ''u2'' ''draft''] [] []))
     = Some (WriteCreatePlanResponse \<lparr>resp_Id = ''100'', resp_Name = ''draft''\<rparr>)
   \<and> map_option (\<lambda>y. plans (snd y))
        (CreatePlanHandler (sample_env []) (sample_request ''u1'' [] (Parsed []))
          (sample_world [sample_plan ''7'' ''u1'' ''draft'', sample_plan ''8'' ''u1'' ''a'',
                         sample_plan ''9'' ''u2'' ''draft''] [] []))
     = Some [sample_plan ''8'' ''u1'' ''a'', sample_plan ''9'' ''u2'' ''draft'',
             sample_plan ''100'' ''u1'' ''draft'']
   \<and> map_option (\<lambda>y. invoked (sample_world [sample_plan ''7'' ''u1'' ''draft'',
                         sample_plan ''8'' ''u1'' ''a'', sample_plan ''9'' ''u2'' ''draft''] [] []) (snd y))
        (CreatePlanHandler (sample_env []) (sample_request ''u1'' [] (Parsed []))
          (sample_world [sample_plan ''7'' ''u1'' ''draft'', sample_plan ''8'' ''u1'' ''a'',
                         sample_plan ''9'' ''u2'' ''draft''] [] []))
     = Some [Call_DeleteDraftPlans ''org1'' ''proj1'' ''u1'',
             Call_CreatePlan ''org1'' ''proj1'' ''u1'' ''draft'']"
proof -
  let ?w = "sample_world [sample_plan ''7'' ''u1'' ''draft'', sample_plan ''8'' ''u1'' ''a'',
                         sample_plan ''9'' ''u2'' ''draft''] [] []"
  let ?e = "sample_env []"
  let ?r = "sample_request ''u1'' [] (Parsed [])"
  let ?auth = "sample_auth ''u1''"
  have d100: "decimal 100 = ''100''"
    by (simp add: decimal.simps digit_char_def)
  have gate: "trial_quota_gate ?e ?auth ?w = (None, ?w)"
    by (simp add: trial_quota_gate_def sample_env_def)
  have pre: "authenticate ?r = Some ?auth"
    "HasPermission ?auth PermissionCreatePlan"
    "authorizeProject ?e (vars_projectId ?r) ?auth"
    "body ?r = Parsed []" "healthy ?w" "\<not> marshal_fails ?e"
    "vars_projectId ?r = ''proj1''" "auth_User_Id ?auth = ''u1''"
    "auth_OrgId ?auth = ''org1''" "next_id ?w = 100"
    "plans ?w = [sample_plan ''7'' ''u1'' ''draft'', sample_plan ''8'' ''u1'' ''a'',
                 sample_plan ''9'' ''u2'' ''draft'']"
    by (simp_all add: sample_request_def sample_auth_def sample_env_def sample_world_def
        HasPermission_def healthy_def)
  have em: "[] = [] \<or> [] = ''draft''" by simp
  from draft_request_replaces_drafts [OF pre(1) pre(2) pre(3) gate pre(4) em pre(5) pre(6)]
  obtain w' where h: "CreatePlanHandler ?e ?r ?w
           = Some (WriteCreatePlanResponse \<lparr>resp_Id = decimal (next_id ?w), resp_Name = ''draft''\<rparr>, w')"
    and i: "invoked ?w w'
           = [Call_DeleteDraftPlans (auth_OrgId ?auth) (vars_projectId ?r) (auth_User_Id ?auth),
              Call_CreatePlan (auth_OrgId ?auth) (vars_projectId ?r) (auth_User_Id ?auth) ''draft'']"
    and p: "plans w'
           = filter (\<lambda>p. \<not> scope_draft (auth_OrgId ?auth) (vars_projectId ?r) (auth_User_Id ?auth) p)
               (plans ?w)
             @ [\<lparr>plan_Id = decimal (next_id ?w), plan_OrgId = auth_OrgId ?auth,
                 plan_OwnerId = auth_User_Id ?auth, plan_ProjectId = vars_projectId ?r,
                 plan_Name = ''draft''\<rparr>]"
    by blast
  have i': "invoked ?w w' = [Call_DeleteDraftPlans ''org1'' ''proj1'' ''u1'',
             Call_CreatePlan ''org1'' ''proj1'' ''u1'' ''draft'']"
    unfolding i pre ..
  have p': "plans w' = [sample_plan ''8'' ''u1'' ''a'', sample_plan ''9'' ''u2'' ''draft'',
             sample_plan ''100'' ''u1'' ''draft'']"
    unfolding p pre d100 by (simp add: scope_draft_def sample_plan_def)
  show ?thesis
    unfolding h pre d100 by (simp add: i' p')
qed

subsection \<open>The name-uniqueness invariant\<close>




















end
